theory Spec2Isabelle
  imports Complex_Main "HOL-Library.Word" "HOL-Library.Monad_Syntax"
begin

unbundle bit_operations_syntax

text \<open>
  The script \<open>fetch_more_colors.py\<close> reads the named colours of a generated Kotlin file,
  merges a fetched list of named colours into them, and writes the file again, with the
  function that names the closest colour in its footer. The sections below model, in the
  order of the script, the text functions it calls, \<open>hex_to_rgb\<close>, the adaptation of the
  fetched data, the merge, the pattern that reads the existing colours, the output, and the
  generated \<open>getColorName\<close>; the properties follow.
\<close>

section \<open>Text\<close>

text \<open>
  A Python \<open>str\<close> is modelled as a \<open>string\<close> whose characters are the code points below 256;
  the character classes and the case mappings below are Python's on these code points. Two of
  them, \<open>U+00B5\<close> and \<open>U+00FF\<close>, have their title case above 255: \<open>title\<close> leaves them as they
  are, and what is proved of \<open>title\<close> is stated for names without them.
\<close>

definition dquote :: char where
  "dquote = CHR 0x22"

definition newline :: char where
  "newline = CHR 0x0A"

definition ascii_uppercase :: string where
  "ascii_uppercase = ''ABCDEFGHIJKLMNOPQRSTUVWXYZ''"

definition ascii_lowercase :: string where
  "ascii_lowercase = ''abcdefghijklmnopqrstuvwxyz''"

text \<open>The capital letters \<open>U+00C0\<close> to \<open>U+00DE\<close> and, in the same order, their small letters.\<close>

definition latin_uppercase :: string where
  "latin_uppercase =
     [CHR 0xC0, CHR 0xC1, CHR 0xC2, CHR 0xC3, CHR 0xC4, CHR 0xC5, CHR 0xC6, CHR 0xC7,
      CHR 0xC8, CHR 0xC9, CHR 0xCA, CHR 0xCB, CHR 0xCC, CHR 0xCD, CHR 0xCE, CHR 0xCF,
      CHR 0xD0, CHR 0xD1, CHR 0xD2, CHR 0xD3, CHR 0xD4, CHR 0xD5, CHR 0xD6,
      CHR 0xD8, CHR 0xD9, CHR 0xDA, CHR 0xDB, CHR 0xDC, CHR 0xDD, CHR 0xDE]"

definition latin_lowercase :: string where
  "latin_lowercase =
     [CHR 0xE0, CHR 0xE1, CHR 0xE2, CHR 0xE3, CHR 0xE4, CHR 0xE5, CHR 0xE6, CHR 0xE7,
      CHR 0xE8, CHR 0xE9, CHR 0xEA, CHR 0xEB, CHR 0xEC, CHR 0xED, CHR 0xEE, CHR 0xEF,
      CHR 0xF0, CHR 0xF1, CHR 0xF2, CHR 0xF3, CHR 0xF4, CHR 0xF5, CHR 0xF6,
      CHR 0xF8, CHR 0xF9, CHR 0xFA, CHR 0xFB, CHR 0xFC, CHR 0xFD, CHR 0xFE]"

text \<open>
  The cased characters: the letters above, the ordinal indicators \<open>U+00AA\<close> and \<open>U+00BA\<close>, the
  micro sign \<open>U+00B5\<close>, the sharp s \<open>U+00DF\<close> and \<open>U+00FF\<close>.
\<close>

definition is_cased :: "char \<Rightarrow> bool" where
  "is_cased c \<longleftrightarrow>
     c \<in> set ascii_uppercase \<or> c \<in> set ascii_lowercase \<or>
     c \<in> set latin_uppercase \<or> c \<in> set latin_lowercase \<or>
     c \<in> set [CHR 0xAA, CHR 0xB5, CHR 0xBA, CHR 0xDF, CHR 0xFF]"

definition lower_char :: "char \<Rightarrow> char" where
  "lower_char c =
     (case map_of (zip (ascii_uppercase @ latin_uppercase) (ascii_lowercase @ latin_lowercase)) c of
        Some d \<Rightarrow> d
      | None \<Rightarrow> c)"

text \<open>The title case of a character; that of the sharp s is two characters.\<close>

definition title_char :: "char \<Rightarrow> string" where
  "title_char c =
     (if c = CHR 0xDF then ''Ss''
      else case map_of (zip (ascii_lowercase @ latin_lowercase) (ascii_uppercase @ latin_uppercase)) c of
             Some d \<Rightarrow> [d]
           | None \<Rightarrow> [c])"

text \<open>The upper case of a character; it differs from the title case on the sharp s only.\<close>

definition upper_char :: "char \<Rightarrow> string" where
  "upper_char c = (if c = CHR 0xDF then ''SS'' else title_char c)"

text \<open>\<open>str.isspace\<close>, which is also the class \<open>\s\<close> of \<open>re\<close> on a \<open>str\<close> pattern.\<close>

definition is_space :: "char \<Rightarrow> bool" where
  "is_space c \<longleftrightarrow> c \<in> set [CHR 0x09, CHR 0x0A, CHR 0x0B, CHR 0x0C, CHR 0x0D,
                            CHR 0x1C, CHR 0x1D, CHR 0x1E, CHR 0x1F, CHR 0x20, CHR 0x85, CHR 0xA0]"

text \<open>\<open>str.lower()\<close>.\<close>

definition lower :: "string \<Rightarrow> string" where
  "lower s = map lower_char s"

text \<open>
  \<open>str.title()\<close>: a character that follows a cased character is lowercased, every other
  character is put in title case; whether a character is cased is read from the original
  string.
\<close>

fun title_from :: "bool \<Rightarrow> string \<Rightarrow> string" where
  "title_from previous_is_cased [] = []"
| "title_from previous_is_cased (c # cs) =
     (if previous_is_cased then [lower_char c] else title_char c) @ title_from (is_cased c) cs"

definition title :: "string \<Rightarrow> string" where
  "title s = title_from False s"



section \<open>Integers as text\<close>

definition is_digit :: "char \<Rightarrow> bool" where
  "is_digit c \<longleftrightarrow> c \<in> set ''0123456789''"

text \<open>The value of a digit in base 16, as \<open>int(s, 16)\<close> reads it: either case is accepted.\<close>

definition digit_value :: "char \<Rightarrow> nat option" where
  "digit_value c =
     map_of (zip ''0123456789abcdefABCDEF''
                 [0, 1, 2, 3, 4, 5, 6, 7, 8, 9, 10, 11, 12, 13, 14, 15, 10, 11, 12, 13, 14, 15]) c"

text \<open>
  The white space that \<open>int\<close> skips around a literal: that of \<open>str.isspace\<close> without the four
  separators \<open>U+001C\<close> to \<open>U+001F\<close>.
\<close>

definition is_int_space :: "char \<Rightarrow> bool" where
  "is_int_space c \<longleftrightarrow>
     c \<in> set [CHR 0x09, CHR 0x0A, CHR 0x0B, CHR 0x0C, CHR 0x0D, CHR 0x20, CHR 0x85, CHR 0xA0]"

definition strip_int_space :: "string \<Rightarrow> string" where
  "strip_int_space s = rev (dropWhile is_int_space (rev (dropWhile is_int_space s)))"

text \<open>
  The digits of a literal: at least one digit, and single underscores between digits only.
  The flag says that a digit has to come next.
\<close>

fun digits16 :: "bool \<Rightarrow> nat \<Rightarrow> string \<Rightarrow> nat option" where
  "digits16 need acc [] = (if need then None else Some acc)"
| "digits16 need acc (c # cs) =
     (if c = CHR ''_'' then (if need then None else digits16 True acc cs)
      else case digit_value c of
             None \<Rightarrow> None
           | Some d \<Rightarrow> digits16 False (16 * acc + d) cs)"

definition strip_sign :: "string \<Rightarrow> bool \<times> string" where
  "strip_sign s =
     (case s of
        [] \<Rightarrow> (False, [])
      | c # cs \<Rightarrow> if c = CHR ''-'' then (True, cs) else if c = CHR ''+'' then (False, cs) else (False, s))"

text \<open>An optional \<open>0x\<close> or \<open>0X\<close>, after which one underscore is allowed.\<close>

definition strip_0x :: "string \<Rightarrow> string" where
  "strip_0x s =
     (case s of
        c # x # cs \<Rightarrow>
          if c = CHR ''0'' \<and> (x = CHR ''x'' \<or> x = CHR ''X'')
          then (case cs of [] \<Rightarrow> [] | u # us \<Rightarrow> if u = CHR ''_'' then us else cs)
          else s
      | _ \<Rightarrow> s)"

datatype error = AttributeError | TypeError | ValueError

text \<open>\<open>int(s, 16)\<close>, which raises \<open>ValueError\<close> on anything that is not a literal.\<close>

definition int16 :: "string \<Rightarrow> error + int" where
  "int16 s =
     (let (negative, body) = strip_sign (strip_int_space s)
      in case digits16 True 0 (strip_0x body) of
           None \<Rightarrow> Inl ValueError
         | Some n \<Rightarrow> Inr (if negative then - int n else int n))"

text \<open>
  \<open>int\<close> in base 10 refuses a literal of more than 4300 digits with \<open>ValueError\<close>, the zeros
  in front counting; base 16 has no such limit.
\<close>

definition int_accepts :: "string \<Rightarrow> bool" where
  "int_accepts r \<longleftrightarrow> length r \<le> 4300"

text \<open>
  \<open>int(r)\<close> on a string that \<open>\d+\<close> has matched, a run of decimal digits, when \<open>int\<close> accepts
  it; \<open>main\<close> tests \<open>int_accepts\<close> before it reads a number.
\<close>

definition int10 :: "string \<Rightarrow> int" where
  "int10 r = foldl (\<lambda>acc c. 10 * acc + (case digit_value c of Some d \<Rightarrow> int d | None \<Rightarrow> 0)) 0 r"

definition hex_digits :: string where
  "hex_digits = ''0123456789abcdef''"

fun hex_of_nat :: "nat \<Rightarrow> string" where
  "hex_of_nat n = (if n < 16 then [hex_digits ! n] else hex_of_nat (n div 16) @ [hex_digits ! (n mod 16)])"

declare hex_of_nat.simps [simp del]

fun dec_of_nat :: "nat \<Rightarrow> string" where
  "dec_of_nat n = (if n < 10 then [hex_digits ! n] else dec_of_nat (n div 10) @ [hex_digits ! (n mod 10)])"

declare dec_of_nat.simps [simp del]

text \<open>\<open>"{:02x}".format(r)\<close>: lowercase hexadecimal, padded with zeros to two characters, the sign counting.\<close>

definition format_02x :: "int \<Rightarrow> string" where
  "format_02x r =
     (if r < 0 then CHR ''-'' # hex_of_nat (nat (- r))
      else let s = hex_of_nat (nat r) in if length s < 2 then CHR ''0'' # s else s)"

text \<open>
  \<open>str(r)\<close>, as an f-string formats an integer of at most 4300 digits. The components that
  \<open>main\<close> writes are such: they were read by \<open>int\<close> from the file or from two hexadecimal
  digits.
\<close>

definition str_int :: "int \<Rightarrow> string" where
  "str_int r = (if r < 0 then CHR ''-'' # dec_of_nat (nat (- r)) else dec_of_nat (nat r))"

section \<open>\<open>hex_to_rgb\<close>\<close>

text \<open>
  \<open>lstrip('#')\<close> removes every leading \<open>#\<close>; each of the three slices \<open>[0:2]\<close>, \<open>[2:4]\<close>,
  \<open>[4:6]\<close> is read by \<open>int(_, 16)\<close>, and the first one that is not a literal raises.
\<close>

definition hex_to_rgb :: "string \<Rightarrow> error + (int \<times> int \<times> int)" where
  "hex_to_rgb hex_color =
     (let h = dropWhile (\<lambda>c. c = CHR ''#'') hex_color
      in case int16 (take 2 h) of
           Inl e \<Rightarrow> Inl e
         | Inr r \<Rightarrow>
             (case int16 (take 2 (drop 2 h)) of
                Inl e \<Rightarrow> Inl e
              | Inr g \<Rightarrow>
                  (case int16 (take 2 (drop 4 h)) of
                     Inl e \<Rightarrow> Inl e
                   | Inr b \<Rightarrow> Inr (r, g, b))))"

section \<open>The fetched data\<close>

text \<open>
  What \<open>json.loads\<close> returns: \<open>None\<close>, a Boolean, a number (by its value), a string, a
  list, or a dictionary, kept as the list of its items in iteration order (the keys of a
  dictionary are distinct).
\<close>

datatype json =
    JNull
  | JBool bool
  | JNum rat
  | JStr string
  | JList "json list"
  | JObj "(string \<times> json) list"

text \<open>The truth value of an object in a condition.\<close>

fun truthy :: "json \<Rightarrow> bool" where
  "truthy JNull = False"
| "truthy (JBool b) = b"
| "truthy (JNum x) = (x \<noteq> 0)"
| "truthy (JStr s) = (s \<noteq> [])"
| "truthy (JList xs) = (xs \<noteq> [])"
| "truthy (JObj kvs) = (kvs \<noteq> [])"

text \<open>\<open>d.get(k)\<close>: \<open>None\<close> when the key is absent.\<close>

definition dict_get :: "(string \<times> json) list \<Rightarrow> string \<Rightarrow> json" where
  "dict_get d k = (case map_of d k of None \<Rightarrow> JNull | Some v \<Rightarrow> v)"

text \<open>An element of \<open>parsed_new_colors\<close>: the values under \<open>'name'\<close> and \<open>'hex'\<close>.\<close>

type_synonym new_color = "json \<times> json"

text \<open>
  The loop over a fetched list: \<open>item.get\<close> exists on a dictionary only, so any other element
  raises \<open>AttributeError\<close>; an item is kept when its name and its hex are both truthy.
\<close>

fun adapt_list :: "new_color list \<Rightarrow> json list \<Rightarrow> error + new_color list" where
  "adapt_list parsed_new_colors [] = Inr parsed_new_colors"
| "adapt_list parsed_new_colors (item # items) =
     (case item of
        JObj d \<Rightarrow>
          (let name = dict_get d ''name''; hex_val = dict_get d ''hex''
           in if truthy name \<and> truthy hex_val
              then adapt_list (parsed_new_colors @ [(name, hex_val)]) items
              else adapt_list parsed_new_colors items)
      | _ \<Rightarrow> Inl AttributeError)"

text \<open>
  The adaptation of the fetched data in \<open>main\<close>. \<open>len(new_colors_data)\<close> is printed first and
  raises \<open>TypeError\<close> on \<open>None\<close>, a Boolean or a number; a list goes through the loop above, a
  dictionary gives one record for each of its items (the key is the hex) with no check, and
  a string gives no record.
\<close>

definition adapt_structure :: "json \<Rightarrow> error + new_color list" where
  "adapt_structure new_colors_data =
     (case new_colors_data of
        JList items \<Rightarrow> adapt_list [] items
      | JObj d \<Rightarrow> Inr (map (\<lambda>(hex_val, name). (name, JStr hex_val)) d)
      | JStr s \<Rightarrow> Inr []
      | _ \<Rightarrow> Inl TypeError)"

section \<open>Merging and deduplicating\<close>

text \<open>An element of \<open>final_colors\<close>: \<open>(name, r, g, b)\<close>.\<close>

type_synonym named_color = "string \<times> int \<times> int \<times> int"

record merge_state =
  final_colors :: "named_color list"
  seen_hex :: "string set"
  seen_names :: "string set"
  added_count :: nat

definition initial_state :: merge_state where
  "initial_state = \<lparr>final_colors = [], seen_hex = {}, seen_names = {}, added_count = 0\<rparr>"

text \<open>The key under which an existing colour is recorded: \<open>"#{:02x}{:02x}{:02x}".format(r, g, b)\<close>.\<close>

definition format_hex :: "int \<Rightarrow> int \<Rightarrow> int \<Rightarrow> string" where
  "format_hex r g b = CHR ''#'' # format_02x r @ format_02x g @ format_02x b"

text \<open>The body of the loop that keeps the existing colours.\<close>

definition keep_existing :: "merge_state \<Rightarrow> named_color \<Rightarrow> merge_state" where
  "keep_existing st = (\<lambda>(name, r, g, b).
     st\<lparr>final_colors := final_colors st @ [(name, r, g, b)],
        seen_hex := insert (format_hex r g b) (seen_hex st),
        seen_names := insert (lower name) (seen_names st)\<rparr>)"

text \<open>
  \<open>hex_val in seen_hex\<close>: a list or a dictionary is not hashable and raises \<open>TypeError\<close>;
  the set holds strings only, so any other value that is not a string is not in it.
\<close>

fun in_seen_hex :: "json \<Rightarrow> string set \<Rightarrow> error + bool" where
  "in_seen_hex (JStr h) seen = Inr (h \<in> seen)"
| "in_seen_hex (JList xs) seen = Inl TypeError"
| "in_seen_hex (JObj kvs) seen = Inl TypeError"
| "in_seen_hex v seen = Inr False"

text \<open>
  The body of the loop that adds the new colours. \<open>name.title()\<close> raises \<open>AttributeError\<close>
  when the name is not a string. Inside the \<open>try\<close>, \<open>hex_to_rgb\<close> raises when the hex is not
  a string (it has no \<open>lstrip\<close>) or when a slice is not a literal; the bare \<open>except\<close> drops the
  record and leaves the state as it was.
\<close>

definition add_new_color :: "merge_state \<Rightarrow> new_color \<Rightarrow> error + merge_state" where
  "add_new_color st = (\<lambda>(name, hex_val).
     case name of
       JStr n \<Rightarrow>
         (let clean_name = title n
          in case in_seen_hex hex_val (seen_hex st) of
               Inl e \<Rightarrow> Inl e
             | Inr True \<Rightarrow> Inr st
             | Inr False \<Rightarrow>
                 if lower clean_name \<in> seen_names st then Inr st
                 else (case hex_val of
                         JStr h \<Rightarrow>
                           (case hex_to_rgb h of
                              Inl e \<Rightarrow> Inr st
                            | Inr (r, g, b) \<Rightarrow>
                                Inr (st\<lparr>final_colors := final_colors st @ [(clean_name, r, g, b)],
                                       seen_hex := insert h (seen_hex st),
                                       seen_names := insert (lower clean_name) (seen_names st),
                                       added_count := added_count st + 1\<rparr>))
                       | _ \<Rightarrow> Inr st))
     | _ \<Rightarrow> Inl AttributeError)"

fun add_new_colors :: "merge_state \<Rightarrow> new_color list \<Rightarrow> error + merge_state" where
  "add_new_colors st [] = Inr st"
| "add_new_colors st (item # items) =
     (case add_new_color st item of
        Inl e \<Rightarrow> Inl e
      | Inr st' \<Rightarrow> add_new_colors st' items)"

text \<open>
  Step 3 of \<open>main\<close>: the existing colours first, then the new ones; the result is
  \<open>final_colors\<close> and \<open>added_count\<close>.
\<close>

definition merge :: "named_color list \<Rightarrow> new_color list \<Rightarrow> error + (named_color list \<times> nat)" where
  "merge existing parsed_new_colors =
     (case add_new_colors (foldl keep_existing initial_state existing) parsed_new_colors of
        Inl e \<Rightarrow> Inl e
      | Inr st \<Rightarrow> Inr (final_colors st, added_count st))"

section \<open>Reading the existing colours\<close>

text \<open>
  The pattern
  \<^verbatim>\<open>NamedColor\s*\(\s*"([^"]+)"\s*,\s*(\d+)\s*,\s*(\d+)\s*,\s*(\d+)\s*\)\<close>
  is matched piece by piece. Every repetition is followed by a character outside its own
  class, so the longest run is the only one with which a match can go on: taking it is what
  the backtracking matcher finds.
\<close>

definition skip_space :: "string \<Rightarrow> string" where
  "skip_space s = dropWhile is_space s"

fun literal :: "string \<Rightarrow> string \<Rightarrow> string option" where
  "literal [] s = Some s"
| "literal (p # ps) [] = None"
| "literal (p # ps) (c # cs) = (if p = c then literal ps cs else None)"

definition expect :: "char \<Rightarrow> string \<Rightarrow> string option" where
  "expect p s = (case s of [] \<Rightarrow> None | c # cs \<Rightarrow> if c = p then Some cs else None)"

text \<open>A group of one or more characters of a class: the group and what follows it.\<close>

definition group_while :: "(char \<Rightarrow> bool) \<Rightarrow> string \<Rightarrow> (string \<times> string) option" where
  "group_while P s = (if takeWhile P s = [] then None else Some (takeWhile P s, dropWhile P s))"

text \<open>A match of the pattern at the start of the text: the four groups and the text after the match.\<close>

definition pattern_match :: "string \<Rightarrow> ((string \<times> string \<times> string \<times> string) \<times> string) option" where
  "pattern_match s = do {
     s \<leftarrow> literal ''NamedColor'' s;
     s \<leftarrow> expect CHR ''('' (skip_space s);
     s \<leftarrow> expect dquote (skip_space s);
     (name, s) \<leftarrow> group_while (\<lambda>c. c \<noteq> dquote) s;
     s \<leftarrow> expect dquote s;
     s \<leftarrow> expect CHR '','' (skip_space s);
     (r, s) \<leftarrow> group_while is_digit (skip_space s);
     s \<leftarrow> expect CHR '','' (skip_space s);
     (g, s) \<leftarrow> group_while is_digit (skip_space s);
     s \<leftarrow> expect CHR '','' (skip_space s);
     (b, s) \<leftarrow> group_while is_digit (skip_space s);
     s \<leftarrow> expect CHR '')'' (skip_space s);
     Some ((name, r, g, b), s)
   }"

text \<open>
  \<open>pattern.findall(content)\<close>: the matches from left to right, the search going on after the
  end of a match, or one character further where there is none.
\<close>

function findall :: "string \<Rightarrow> (string \<times> string \<times> string \<times> string) list" where
  "findall [] = []"
| "findall (c # cs) =
     (case pattern_match (c # cs) of
        Some (m, rest) \<Rightarrow> m # findall rest
      | None \<Rightarrow> findall cs)"
  by pat_completeness auto
termination
proof (relation "measure length")
  show "wf (measure length)"
    by simp
next
  fix c :: char and cs :: string
  show "(cs, c # cs) \<in> measure length"
    by simp
next
  fix c :: char and cs :: string and x2 m rest
  assume found: "pattern_match (c # cs) = Some x2" and x2: "(m, rest) = x2"
  have lit: "length r \<le> length s" if "literal p s = Some r" for p s r
    using that by (induction p s rule: literal.induct) (auto split: if_splits)
  have ex: "length r < length s" if "expect p s = Some r" for p s r
    using that by (auto simp: expect_def split: list.splits if_splits)
  have sk: "length (skip_space s) \<le> length s" for s
    by (simp add: skip_space_def length_dropWhile_le)
  have gr: "length r \<le> length s" if "group_while P s = Some (n, r)" for P s n r
    using that by (auto simp: group_while_def length_dropWhile_le split: if_splits)
  from found x2 obtain s1 s2 where
    s1: "literal ''NamedColor'' (c # cs) = Some s1" and
    s2: "expect CHR ''('' (skip_space s1) = Some s2" and
    tail: "(do {
        s \<leftarrow> expect dquote (skip_space s2);
        (name, s) \<leftarrow> group_while (\<lambda>c. c \<noteq> dquote) s;
        s \<leftarrow> expect dquote s;
        s \<leftarrow> expect CHR '','' (skip_space s);
        (r, s) \<leftarrow> group_while is_digit (skip_space s);
        s \<leftarrow> expect CHR '','' (skip_space s);
        (g, s) \<leftarrow> group_while is_digit (skip_space s);
        s \<leftarrow> expect CHR '','' (skip_space s);
        (b, s) \<leftarrow> group_while is_digit (skip_space s);
        s \<leftarrow> expect CHR '')'' (skip_space s);
        Some ((name, r, g, b), s)
      }) = Some (m, rest)"
    unfolding pattern_match_def by (auto simp: bind_eq_Some_conv)
  have exs: "length r < length s" if "expect p (skip_space s) = Some r" for p s r
    using ex [OF that] sk [of s] by simp
  have grs: "length r \<le> length s" if "group_while P (skip_space s) = Some (n, r)" for P s n r
    using gr [OF that] sk [of s] by simp
  from tail have "length rest \<le> length s2"
    apply (clarsimp simp: bind_eq_Some_conv)
    apply ((drule exs | drule grs | drule ex | drule gr)+)
    apply linarith
    done
  moreover have "length s2 < length (c # cs)"
    using lit [OF s1] ex [OF s2] sk [of s1] by simp
  ultimately show "(rest, c # cs) \<in> measure length"
    by simp
qed

text \<open>
  The existing colours of \<open>main\<close>: each match with its three numbers read by \<open>int\<close>, which
  \<open>main\<close> has tested to accept them.
\<close>

definition existing_colors :: "string \<Rightarrow> named_color list" where
  "existing_colors content = map (\<lambda>(name, r, g, b). (name, int10 r, int10 g, int10 b)) (findall content)"

section \<open>Writing the output\<close>

text \<open>The lines of a text, each ended by a newline.\<close>

definition unlines :: "string list \<Rightarrow> string" where
  "unlines ls = concat (map (\<lambda>l. l @ [newline]) ls)"

definition header :: string where
  "header = unlines
     [''package com.alexdremov.notate.util'',
      '''',
      ''import android.graphics.Color'',
      ''import kotlin.math.pow'',
      ''import kotlin.math.sqrt'',
      '''',
      ''object ColorNamer {'',
      '''',
      ''    data class NamedColor(val name: String, val r: Int, val g: Int, val b: Int) {'',
      ''        val colorInt: Int = Color.rgb(r, g, b)'',
      ''    }'',
      '''',
      ''    // A curated list of colors for natural language description.'',
      ''    // Sources: Standard Web Colors, Material Design, Presets, XKCD, and Color-Name-Lists.'',
      ''    private val colorList = listOf('']"

definition footer :: string where
  "footer = unlines
     [''    )'',
      '''',
      ''    /**'',
      ''     * Finds the closest natural language name for the given color using Euclidean distance in RGB space.'',
      ''     * @param color The input color.'',
      ''     * @return The name of the closest color in the curated list.'',
      ''     */'',
      ''    fun getColorName(color: Int): String {'',
      ''        val r = Color.red(color)'',
      ''        val g = Color.green(color)'',
      ''        val b = Color.blue(color)'',
      '''',
      ''        var minDistance = Double.MAX_VALUE'',
      ''        var closestColorName = '' @ [dquote] @ ''Unknown'' @ [dquote] @ '''',
      '''',
      ''        for (namedColor in colorList) {'',
      ''            val distance = calculateDistance(r, g, b, namedColor.r, namedColor.g, namedColor.b)'',
      ''            if (distance < minDistance) {'',
      ''                minDistance = distance'',
      ''                closestColorName = namedColor.name'',
      ''            }'',
      ''        }'',
      '''',
      ''        return closestColorName'',
      ''    }'',
      '''',
      ''    private fun calculateDistance(r1: Int, g1: Int, b1: Int, r2: Int, g2: Int, b2: Int): Double {'',
      ''        // Simple Euclidean distance'',
      ''        return sqrt((r2 - r1).toDouble().pow(2) + (g2 - g1).toDouble().pow(2) + (b2 - b1).toDouble().pow(2))'',
      ''    }'',
      ''}'']"

text \<open>\<open>s.replace(old, new)\<close> for a pattern of one character.\<close>

definition replace :: "char \<Rightarrow> string \<Rightarrow> string \<Rightarrow> string" where
  "replace old new s = concat (map (\<lambda>c. if c = old then new else [c]) s)"

text \<open>
  A line of the list. In \<open>name.replace('"', '\"')\<close> the second literal is the one character
  \<open>"\<close>: a backslash before a double quote in a Python string literal stands for the quote alone.
\<close>

definition list_item :: "named_color \<Rightarrow> string" where
  "list_item = (\<lambda>(name, r, g, b).
     let safe_name = replace dquote [dquote] name
     in ''        NamedColor('' @ [dquote] @ safe_name @ [dquote] @ '', '' @ str_int r @ '', '' @
        str_int g @ '', '' @ str_int b @ '')'')"

text \<open>\<open>sep.join(items)\<close>.\<close>

fun join :: "string \<Rightarrow> string list \<Rightarrow> string" where
  "join sep [] = []"
| "join sep [x] = x"
| "join sep (x # y # ys) = x @ sep @ join sep (y # ys)"

definition full_content :: "named_color list \<Rightarrow> string" where
  "full_content colors =
     header @ join [CHR '','', newline] (map list_item colors) @ [newline] @ footer"

section \<open>The run\<close>

text \<open>
  \<open>main\<close> from the fetched data and the content of the existing file, as \<open>read\<close> returns it,
  to the content written back; an exception that is not caught ends the run before anything
  is written. The fetched data is adapted first; then the numbers of the existing colours are
  read, where \<open>int\<close> raises on a number that it does not accept; then the fetched colours are
  merged.
\<close>

definition main :: "json \<Rightarrow> string \<Rightarrow> error + string" where
  "main new_colors_data content =
     (case adapt_structure new_colors_data of
        Inl e \<Rightarrow> Inl e
      | Inr parsed_new_colors \<Rightarrow>
          if list_all (\<lambda>(name, r, g, b). int_accepts r \<and> int_accepts g \<and> int_accepts b)
               (findall content)
          then (case merge (existing_colors content) parsed_new_colors of
                  Inl e \<Rightarrow> Inl e
                | Inr (colors, n) \<Rightarrow> Inr (full_content colors))
          else Inl ValueError)"

section \<open>The generated \<open>getColorName\<close>\<close>

text \<open>
  The Kotlin of the footer. A colour is a 32-bit \<open>Int\<close>; \<open>Color.red\<close>, \<open>Color.green\<close> and
  \<open>Color.blue\<close> are its bytes 2, 1 and 0. A \<open>Double\<close> is modelled as a real number: for
  components in \<open>[0, 255]\<close> the sum of the squares is an integer below \<open>2\<^sup>1\<^sup>8\<close>, computed
  exactly, and the rounded square roots of two such integers compare as the integers do.
\<close>

definition red :: "32 word \<Rightarrow> int" where
  "red color = uint (drop_bit 16 color AND 0xFF)"

definition green :: "32 word \<Rightarrow> int" where
  "green color = uint (drop_bit 8 color AND 0xFF)"

definition blue :: "32 word \<Rightarrow> int" where
  "blue color = uint (color AND 0xFF)"

definition Double_MAX_VALUE :: real where
  "Double_MAX_VALUE = (2 ^ 53 - 1) * 2 ^ 971"

definition calculateDistance :: "int \<Rightarrow> int \<Rightarrow> int \<Rightarrow> int \<Rightarrow> int \<Rightarrow> int \<Rightarrow> real" where
  "calculateDistance r1 g1 b1 r2 g2 b2 =
     sqrt ((real_of_int (r2 - r1)) ^ 2 + (real_of_int (g2 - g1)) ^ 2 + (real_of_int (b2 - b1)) ^ 2)"

text \<open>The body of the loop, on the pair of \<open>minDistance\<close> and \<open>closestColorName\<close>.\<close>

definition closer :: "int \<Rightarrow> int \<Rightarrow> int \<Rightarrow> real \<times> string \<Rightarrow> named_color \<Rightarrow> real \<times> string" where
  "closer r g b = (\<lambda>(minDistance, closestColorName) (name, r2, g2, b2).
     let distance = calculateDistance r g b r2 g2 b2
     in if distance < minDistance then (distance, name) else (minDistance, closestColorName))"

definition getColorName :: "named_color list \<Rightarrow> 32 word \<Rightarrow> string" where
  "getColorName colorList color =
     snd (foldl (closer (red color) (green color) (blue color)) (Double_MAX_VALUE, ''Unknown'') colorList)"

section \<open>Notions used in the proofs\<close>

text \<open>
  A text is \<open>clear\<close> when, at each of its positions, the word \<open>NamedColor\<close> differs from the
  text within the text itself, so that no match of the pattern starts there whatever follows.
\<close>

fun mismatch :: "string \<Rightarrow> string \<Rightarrow> bool" where
  "mismatch (p # ps) (c # cs) = (p \<noteq> c \<or> mismatch ps cs)"
| "mismatch ps cs = False"

fun clear :: "string \<Rightarrow> bool" where
  "clear [] = True"
| "clear (c # cs) = (mismatch ''NamedColor'' (c # cs) \<and> clear cs)"

text \<open>The kind of a fetched value.\<close>

fun is_dict :: "json \<Rightarrow> bool" where
  "is_dict (JObj d) = True"
| "is_dict v = False"

fun is_str :: "json \<Rightarrow> bool" where
  "is_str (JStr s) = True"
| "is_str v = False"

text \<open>The header before and after the \<open>N\<close> of its one occurrence of \<open>NamedColor\<close>.\<close>

definition header_before :: string where
  "header_before = unlines
     [''package com.alexdremov.notate.util'',
      '''',
      ''import android.graphics.Color'',
      ''import kotlin.math.pow'',
      ''import kotlin.math.sqrt'',
      '''',
      ''object ColorNamer {'',
      ''''] @ ''    data class ''"

definition header_after :: string where
  "header_after = unlines
     [''amedColor(val name: String, val r: Int, val g: Int, val b: Int) {'',
      ''        val colorInt: Int = Color.rgb(r, g, b)'',
      ''    }'',
      '''',
      ''    // A curated list of colors for natural language description.'',
      ''    // Sources: Standard Web Colors, Material Design, Presets, XKCD, and Color-Name-Lists.'',
      ''    private val colorList = listOf('']"

text \<open>
  A colour that the output can carry: a name that is not empty and has neither a double quote
  nor a carriage return (which reading a file in text mode turns into a line feed), and
  components that are not negative and that \<open>int\<close> accepts as they are written. Its groups are
  what the pattern captures from its line.
\<close>

definition quote_free :: "named_color \<Rightarrow> bool" where
  "quote_free = (\<lambda>(name, r, g, b).
     name \<noteq> [] \<and> dquote \<notin> set name \<and> CHR 0x0D \<notin> set name \<and>
     0 \<le> r \<and> 0 \<le> g \<and> 0 \<le> b \<and>
     int_accepts (str_int r) \<and> int_accepts (str_int g) \<and> int_accepts (str_int b))"

definition groups :: "named_color \<Rightarrow> string \<times> string \<times> string \<times> string" where
  "groups = (\<lambda>(name, r, g, b). (name, str_int r, str_int g, str_int b))"

text \<open>
  The components of a colour as the data model has them, and the distance of a colour of the
  list from the colour asked for.
\<close>

definition channels_in_range :: "named_color \<Rightarrow> bool" where
  "channels_in_range = (\<lambda>(name, r, g, b). 0 \<le> r \<and> r \<le> 255 \<and> 0 \<le> g \<and> g \<le> 255 \<and> 0 \<le> b \<and> b \<le> 255)"

definition distance_from :: "32 word \<Rightarrow> named_color \<Rightarrow> real" where
  "distance_from color = (\<lambda>(name, r2, g2, b2).
     calculateDistance (red color) (green color) (blue color) r2 g2 b2)"

text \<open>
  The key of a colour, as the loop over the existing colours computes it. A hex is
  \<open>normalized\<close> when \<open>hex_to_rgb\<close> does not read it, or reads it as a colour with that very
  key. A state \<open>seen_agrees\<close> when its two sets are the keys and the lowercased names of its
  colours.
\<close>

definition hex_key :: "named_color \<Rightarrow> string" where
  "hex_key = (\<lambda>(name, r, g, b). format_hex r g b)"

definition normalized :: "json \<Rightarrow> bool" where
  "normalized hex_val =
     (case hex_val of
        JStr h \<Rightarrow> (case hex_to_rgb h of Inl e \<Rightarrow> True | Inr (r, g, b) \<Rightarrow> format_hex r g b = h)
      | _ \<Rightarrow> True)"

definition seen_agrees :: "merge_state \<Rightarrow> bool" where
  "seen_agrees st \<longleftrightarrow>
     seen_hex st = hex_key ` set (final_colors st) \<and>
     seen_names st = (\<lambda>e. lower (fst e)) ` set (final_colors st)"

section \<open>Properties of the text functions\<close>

lemmas char_class_defs =
  is_cased_def lower_char_def title_char_def upper_char_def is_space_def
  ascii_uppercase_def ascii_lowercase_def latin_uppercase_def latin_lowercase_def

lemma title_char_not_empty: "title_char c \<noteq> []"
  by (simp add: title_char_def split: option.split)

lemma title_from_not_empty: "s \<noteq> [] \<Longrightarrow> title_from p s \<noteq> []"
  by (cases s) (simp_all add: title_char_not_empty)

lemma title_not_empty: "s \<noteq> [] \<Longrightarrow> title s \<noteq> []"
  by (simp add: title_def title_from_not_empty)





section \<open>Properties of the pattern and of the output\<close>

lemma findall_skip: "c \<noteq> CHR ''N'' \<Longrightarrow> findall (c # cs) = findall cs"
  by (simp add: pattern_match_def)

lemma literal_append: "literal p (p @ s) = Some s"
  by (induction p) simp_all

lemma skip_space_no_space: "\<not> is_space c \<Longrightarrow> skip_space (c # s) = c # s"
  by (simp add: skip_space_def)

lemma group_while_run:
  "xs \<noteq> [] \<Longrightarrow> \<forall>x \<in> set xs. P x \<Longrightarrow> \<not> P c \<Longrightarrow> group_while P (xs @ c # s) = Some (xs, c # s)"
  by (simp add: group_while_def takeWhile_append2 dropWhile_append2 takeWhile_append1 dropWhile_append1)

lemma digit_below_10: "k < 10 \<Longrightarrow> is_digit (hex_digits ! k) \<and> digit_value (hex_digits ! k) = Some k"
proof -
  assume "k < 10"
  then have "k = 0 \<or> k = 1 \<or> k = 2 \<or> k = 3 \<or> k = 4 \<or> k = 5 \<or> k = 6 \<or> k = 7 \<or> k = 8 \<or> k = 9"
    by arith
  then show ?thesis
    by (elim disjE) (simp_all add: hex_digits_def is_digit_def digit_value_def)
qed

lemma dec_of_nat_digits: "dec_of_nat n \<noteq> [] \<and> (\<forall>c \<in> set (dec_of_nat n). is_digit c)"
proof (induction n rule: dec_of_nat.induct)
  case (1 n)
  show ?case
  proof (cases "n < 10")
    case True
    then show ?thesis
      using digit_below_10 [of n] by (simp add: dec_of_nat.simps [of n])
  next
    case False
    then show ?thesis
      using "1" digit_below_10 [of "n mod 10"] by (simp add: dec_of_nat.simps [of n])
  qed
qed

lemma int10_snoc:
  "int10 (xs @ [c]) = 10 * int10 xs + (case digit_value c of Some d \<Rightarrow> int d | None \<Rightarrow> 0)"
  by (simp add: int10_def)

lemma int10_dec_of_nat: "int10 (dec_of_nat n) = int n"
proof (induction n rule: dec_of_nat.induct)
  case (1 n)
  show ?case
  proof (cases "n < 10")
    case True
    then show ?thesis
      using digit_below_10 [of n] by (simp add: dec_of_nat.simps [of n] int10_def)
  next
    case False
    then have "int10 (dec_of_nat n) = 10 * int (n div 10) + int (n mod 10)"
      using "1" digit_below_10 [of "n mod 10"] by (simp add: dec_of_nat.simps [of n] int10_snoc)
    then show ?thesis
      by (simp add: zdiv_int zmod_int)
  qed
qed

lemma replace_same: "replace c [c] s = s"
  by (induction s) (simp_all add: replace_def)

lemma not_digit_separators: "\<not> is_digit CHR '','' \<and> \<not> is_digit CHR '')''"
  by (simp add: is_digit_def)

lemma pattern_match_item:
  assumes "name \<noteq> []" and "dquote \<notin> set name"
  shows "pattern_match (''NamedColor('' @ [dquote] @ name @ [dquote] @ '', '' @ dec_of_nat r @ '', '' @
            dec_of_nat g @ '', '' @ dec_of_nat b @ '')'' @ t) =
         Some ((name, dec_of_nat r, dec_of_nat g, dec_of_nat b), t)"
proof -
  have name: "group_while (\<lambda>c. c \<noteq> dquote) (name @ dquote # s) = Some (name, dquote # s)" for s
    using assms by (intro group_while_run) auto
  have num: "group_while is_digit (dec_of_nat n @ CHR '','' # s) = Some (dec_of_nat n, CHR '','' # s)"
    and num': "group_while is_digit (dec_of_nat n @ CHR '')'' # s) = Some (dec_of_nat n, CHR '')'' # s)"
    for n s
    using dec_of_nat_digits [of n] not_digit_separators by (simp_all add: group_while_run)
  have lit: "literal ''NamedColor'' (''NamedColor'' @ s) = Some s" for s
    by (rule literal_append)
  have sp: "skip_space (CHR '' '' # s) = skip_space s" for s
    by (simp add: skip_space_def is_space_def)
  have nsp: "skip_space (CHR ''('' # s) = CHR ''('' # s" "skip_space (dquote # s) = dquote # s"
     "skip_space (CHR '','' # s) = CHR '','' # s" "skip_space (CHR '')'' # s) = CHR '')'' # s" for s
    by (simp_all add: skip_space_def is_space_def dquote_def)
  have dsp: "skip_space (dec_of_nat n @ s) = dec_of_nat n @ s" for n s
  proof (cases "dec_of_nat n")
    case Nil
    then show ?thesis using dec_of_nat_digits [of n] by simp
  next
    case (Cons d ds)
    then have "is_digit d" using dec_of_nat_digits [of n] by simp
    then have "\<not> is_space d" by (auto simp: is_digit_def is_space_def)
    then show ?thesis using Cons by (simp add: skip_space_def)
  qed
  show ?thesis
    unfolding pattern_match_def
    by (simp add: nsp expect_def name num num' sp dsp)
qed


lemma mismatch_literal: "mismatch p xs \<Longrightarrow> literal p (xs @ t) = None"
  by (induction p xs rule: mismatch.induct) auto

lemma findall_no_literal: "literal ''NamedColor'' (c # cs) = None \<Longrightarrow> findall (c # cs) = findall cs"
  by (simp add: pattern_match_def)

lemma findall_clear: "clear xs \<Longrightarrow> findall (xs @ t) = findall t"
proof (induction xs)
  case Nil
  then show ?case by simp
next
  case (Cons c cs)
  then have "literal ''NamedColor'' ((c # cs) @ t) = None"
    using mismatch_literal [of "''NamedColor''" "c # cs" t] by simp
  then have "findall ((c # cs) @ t) = findall (cs @ t)"
    using findall_no_literal [of c "cs @ t"] by simp
  with Cons show ?case by simp
qed

lemma footer_clear: "clear footer"
  by (simp add: footer_def unlines_def dquote_def newline_def)


lemma header_split: "header = header_before @ CHR ''N'' # header_after"
  by (simp add: header_def header_before_def header_after_def unlines_def)

lemma header_before_clear: "clear header_before"
  by (simp add: header_before_def unlines_def newline_def)

lemma header_after_clear: "clear header_after"
  by (simp add: header_after_def unlines_def newline_def)

lemma header_class_no_match:
  "findall (CHR ''N'' # ''amedColor(v'' @ u) = findall (''amedColor(v'' @ u)"
  by (simp add: pattern_match_def expect_def skip_space_def is_space_def dquote_def)

lemma header_after_start: "header_after @ t = ''amedColor(v'' @ drop 11 header_after @ t"
  by (simp add: header_after_def unlines_def)

lemma findall_header: "findall (header @ t) = findall t"
proof -
  have "findall (header @ t) = findall (CHR ''N'' # header_after @ t)"
    using findall_clear [OF header_before_clear, of "CHR ''N'' # header_after @ t"]
    by (simp add: header_split)
  also have "\<dots> = findall (header_after @ t)"
    by (simp only: header_after_start [of t] header_class_no_match)
  also have "\<dots> = findall t"
    by (rule findall_clear [OF header_after_clear])
  finally show ?thesis .
qed

lemma findall_footer: "findall footer = []"
  using findall_clear [OF footer_clear, of "[]"] by simp

lemma item_no_match:
  "findall (list_item (''Say '' @ [dquote] @ ''Hi'' @ [dquote], 1, 2, 3) @ t) = findall t"
  by (simp add: list_item_def replace_def str_int_def dec_of_nat.simps hex_digits_def
        pattern_match_def expect_def skip_space_def is_space_def group_while_def dquote_def)

lemma findall_item:
  assumes "quote_free e"
  shows "findall (list_item e @ t) = groups e # findall t"
proof -
  obtain name r g b where e: "e = (name, r, g, b)"
    by (cases e) auto
  with assms have ok: "name \<noteq> []" "dquote \<notin> set name" "0 \<le> r" "0 \<le> g" "0 \<le> b"
    by (simp_all add: quote_free_def)
  have "findall (list_item e @ t) =
        findall (''NamedColor('' @ [dquote] @ name @ [dquote] @ '', '' @ dec_of_nat (nat r) @ '', '' @
            dec_of_nat (nat g) @ '', '' @ dec_of_nat (nat b) @ '')'' @ t)"
    using ok by (simp add: e list_item_def replace_same str_int_def findall_skip del: findall.simps)
  also have "\<dots> = groups e # findall t"
    using pattern_match_item [OF ok(1,2), of "nat r" "nat g" "nat b" t] ok
    by (simp add: e groups_def str_int_def)
  finally show ?thesis .
qed

lemma findall_after_items: "findall ([newline] @ footer) = []"
  by (simp add: findall_footer findall_skip newline_def del: findall.simps)

lemma findall_items:
  "\<forall>e \<in> set es. quote_free e \<Longrightarrow>
   findall (join [CHR '','', newline] (map list_item es) @ [newline] @ footer) = map groups es"
proof (induction es rule: induct_list012)
  case 1
  then show ?case
    using findall_after_items by simp
next
  case (2 x)
  then show ?case
    using findall_item [of x "[newline] @ footer"] findall_after_items by simp
next
  case (3 x y zs)
  have "findall (list_item x @ [CHR '','', newline] @ join [CHR '','', newline] (map list_item (y # zs)) @ [newline] @ footer)
        = groups x # findall ([CHR '','', newline] @ join [CHR '','', newline] (map list_item (y # zs)) @ [newline] @ footer)"
    using 3 by (intro findall_item) simp
  also have "\<dots> = groups x # findall (join [CHR '','', newline] (map list_item (y # zs)) @ [newline] @ footer)"
    by (simp add: findall_skip newline_def del: findall.simps)
  finally show ?case
    using 3 by simp
qed

lemma round_trip_quote_free:
  assumes "\<forall>e \<in> set colors. quote_free e"
  shows "existing_colors (full_content colors) = colors"
proof -
  have "findall (full_content colors) = map groups colors"
    unfolding full_content_def using assms by (simp only: findall_header findall_items)
  moreover have "(\<lambda>(name, r, g, b). (name, int10 r, int10 g, int10 b)) (groups e) = e"
    if "quote_free e" for e
    using that by (cases e) (simp add: groups_def quote_free_def str_int_def int10_dec_of_nat)
  ultimately show ?thesis
    using assms by (simp add: existing_colors_def map_idI)
qed

section \<open>Properties of the adaptation and of the merge\<close>

lemma adapt_list_dict:
  "adapt_list acc (JObj d # items) =
     (if truthy (dict_get d ''name'') \<and> truthy (dict_get d ''hex'')
      then adapt_list (acc @ [(dict_get d ''name'', dict_get d ''hex'')]) items
      else adapt_list acc items)"
  by (simp add: Let_def)

lemma adapt_list_other: "\<not> is_dict item \<Longrightarrow> adapt_list acc (item # items) = Inl AttributeError"
  by (cases item) simp_all

lemma is_dictE: "is_dict item \<Longrightarrow> (\<And>d. item = JObj d \<Longrightarrow> P) \<Longrightarrow> P"
  by (cases item) simp_all

declare adapt_list.simps(2) [simp del]

lemma adapt_list_not_dict:
  "\<exists>item \<in> set items. \<not> is_dict item \<Longrightarrow> adapt_list acc items = Inl AttributeError"
proof (induction items arbitrary: acc)
  case Nil
  then show ?case by simp
next
  case (Cons item items)
  show ?case
  proof (cases "is_dict item")
    case False
    then show ?thesis by (simp add: adapt_list_other)
  next
    case True
    then obtain d where d: "item = JObj d" by (rule is_dictE)
    with True Cons.prems have "\<exists>item \<in> set items. \<not> is_dict item" by simp
    then show ?thesis
      using Cons.IH by (simp add: d adapt_list_dict)
  qed
qed

lemma adapt_list_dicts:
  "adapt_list acc (map JObj ds) =
   Inr (acc @ filter (\<lambda>(name, hex_val). truthy name \<and> truthy hex_val)
                 (map (\<lambda>d. (dict_get d ''name'', dict_get d ''hex'')) ds))"
  by (induction ds arbitrary: acc) (simp_all add: adapt_list_dict)

lemma adapt_list_truthy:
  "adapt_list acc items = Inr parsed \<Longrightarrow> \<forall>x \<in> set acc. truthy (fst x) \<and> truthy (snd x) \<Longrightarrow>
   \<forall>x \<in> set parsed. truthy (fst x) \<and> truthy (snd x)"
proof (induction items arbitrary: acc)
  case Nil
  then show ?case by simp
next
  case (Cons item items)
  show ?case
  proof (cases "is_dict item")
    case False
    with Cons.prems show ?thesis by (simp add: adapt_list_other)
  next
    case True
    then obtain d where d: "item = JObj d" by (rule is_dictE)
    show ?thesis
    proof (cases "truthy (dict_get d ''name'') \<and> truthy (dict_get d ''hex'')")
      case True
      with Cons.prems have "adapt_list (acc @ [(dict_get d ''name'', dict_get d ''hex'')]) items = Inr parsed"
        by (simp add: d adapt_list_dict)
      moreover have "\<forall>x \<in> set (acc @ [(dict_get d ''name'', dict_get d ''hex'')]). truthy (fst x) \<and> truthy (snd x)"
        using True Cons.prems(2) by simp
      ultimately show ?thesis by (rule Cons.IH)
    next
      case False
      with Cons.prems have "adapt_list acc items = Inr parsed"
        by (simp add: d adapt_list_dict)
      then show ?thesis using Cons.prems(2) by (rule Cons.IH)
    qed
  qed
qed

lemma keep_existing_final_colors:
  "final_colors (foldl keep_existing st existing) = final_colors st @ existing"
  by (induction existing arbitrary: st) (simp_all add: keep_existing_def split_beta)

lemma keep_existing_added_count:
  "added_count (foldl keep_existing st existing) = added_count st"
  by (induction existing arbitrary: st) (simp_all add: keep_existing_def split_beta)

lemma add_new_color_str:
  "add_new_color st (JStr n, JStr h) =
     (if h \<in> seen_hex st \<or> lower (title n) \<in> seen_names st then Inr st
      else case hex_to_rgb h of
             Inl e \<Rightarrow> Inr st
           | Inr (r, g, b) \<Rightarrow>
               Inr (st\<lparr>final_colors := final_colors st @ [(title n, r, g, b)],
                      seen_hex := insert h (seen_hex st),
                      seen_names := insert (lower (title n)) (seen_names st),
                      added_count := added_count st + 1\<rparr>))"
  by (simp add: add_new_color_def Let_def bool.case_eq_if)

lemma add_new_color_not_str_name: "\<not> is_str name \<Longrightarrow> add_new_color st (name, hex_val) = Inl AttributeError"
  by (cases name) (simp_all add: add_new_color_def)

lemma add_new_color_not_str_hex:
  "\<not> is_str hex_val \<Longrightarrow> add_new_color st (JStr n, hex_val) = Inr st' \<Longrightarrow> st' = st"
  by (cases hex_val) (simp_all add: add_new_color_def Let_def split: if_splits)

lemma add_new_color_cases:
  assumes "add_new_color st (name, hex_val) = Inr st'"
  obtains (skip) "st' = st"
  | (add) n h r g b where "name = JStr n" "hex_val = JStr h" "hex_to_rgb h = Inr (r, g, b)"
      "h \<notin> seen_hex st" "lower (title n) \<notin> seen_names st"
      "st' = st\<lparr>final_colors := final_colors st @ [(title n, r, g, b)],
                 seen_hex := insert h (seen_hex st),
                 seen_names := insert (lower (title n)) (seen_names st),
                 added_count := added_count st + 1\<rparr>"
proof (cases "is_str name")
  case False
  with assms show ?thesis by (simp add: add_new_color_not_str_name)
next
  case True
  then obtain n where n: "name = JStr n" by (cases name) simp_all
  show ?thesis
  proof (cases "is_str hex_val")
    case False
    with assms n have "st' = st" by (auto dest: add_new_color_not_str_hex)
    then show ?thesis by (rule skip)
  next
    case True
    then obtain h where h: "hex_val = JStr h" by (cases hex_val) simp_all
    show ?thesis
    proof (cases "h \<in> seen_hex st \<or> lower (title n) \<in> seen_names st")
      case True
      with assms have "st' = st" by (simp add: n h add_new_color_str)
      then show ?thesis by (rule skip)
    next
      case False
      show ?thesis
      proof (cases "hex_to_rgb h")
        case (Inl e)
        with assms False have "st' = st" by (simp add: n h add_new_color_str)
        then show ?thesis by (rule skip)
      next
        case (Inr rgb)
        obtain r g b where rgb: "rgb = (r, g, b)" by (cases rgb) auto
        with assms False Inr have "st' = st\<lparr>final_colors := final_colors st @ [(title n, r, g, b)],
                 seen_hex := insert h (seen_hex st),
                 seen_names := insert (lower (title n)) (seen_names st),
                 added_count := added_count st + 1\<rparr>"
          by (simp add: n h add_new_color_str)
        with False Inr rgb show ?thesis
          by (intro add [of n h r g b]) (simp_all add: n h)
      qed
    qed
  qed
qed

lemma add_new_color_strings: "\<exists>st'. add_new_color st (JStr n, JStr h) = Inr st'"
  by (simp add: add_new_color_str split: sum.splits prod.splits)

lemma add_new_colors_extends:
  "add_new_colors st items = Inr st' \<Longrightarrow>
   \<exists>new. final_colors st' = final_colors st @ new \<and> added_count st' = added_count st + length new"
proof (induction items arbitrary: st)
  case Nil
  then show ?case by simp
next
  case (Cons item items)
  obtain name hex_val where item: "item = (name, hex_val)"
    by (cases item) auto
  from Cons.prems obtain st1 where
    st1: "add_new_color st (name, hex_val) = Inr st1" and rest: "add_new_colors st1 items = Inr st'"
    by (auto simp: item split: sum.splits)
  from Cons.IH [OF rest] obtain new where
    new: "final_colors st' = final_colors st1 @ new" "added_count st' = added_count st1 + length new"
    by blast
  from st1 show ?case
  proof (cases rule: add_new_color_cases)
    case skip
    with new show ?thesis by simp
  next
    case (add n h r g b)
    with new have "final_colors st' = final_colors st @ ((title n, r, g, b) # new) \<and>
        added_count st' = added_count st + length ((title n, r, g, b) # new)"
      by simp
    then show ?thesis by blast
  qed
qed

lemma add_new_colors_strings:
  "\<forall>x \<in> set items. is_str (fst x) \<and> is_str (snd x) \<Longrightarrow> \<exists>st'. add_new_colors st items = Inr st'"
proof (induction items arbitrary: st)
  case Nil
  then show ?case by simp
next
  case (Cons item items)
  obtain name hex_val where item: "item = (name, hex_val)"
    by (cases item) auto
  with Cons.prems have "is_str name" "is_str hex_val" by simp_all
  then obtain n h where "name = JStr n" "hex_val = JStr h"
    by (cases name; cases hex_val) simp_all
  with add_new_color_strings [of st n h] obtain st1 where st1: "add_new_color st item = Inr st1"
    by (auto simp: item)
  from Cons.prems have "\<forall>x \<in> set items. is_str (fst x) \<and> is_str (snd x)" by simp
  from Cons.IH [OF this, of st1] st1 show ?case by simp
qed

lemmas number_defs = int16_def strip_sign_def strip_int_space_def is_int_space_def strip_0x_def
  digit_value_def

lemmas merge_defs = merge_def initial_state_def keep_existing_def add_new_color_def format_hex_def
  format_02x_def hex_of_nat.simps hex_digits_def lower_def title_def char_class_defs hex_to_rgb_def
  number_defs Let_def

lemma add_new_colors_names:
  "add_new_colors st items = Inr st' \<Longrightarrow> \<forall>x \<in> set items. truthy (fst x) \<Longrightarrow>
   \<forall>e \<in> set (final_colors st). fst e \<noteq> [] \<Longrightarrow> \<forall>e \<in> set (final_colors st'). fst e \<noteq> []"
proof (induction items arbitrary: st)
  case Nil
  then show ?case by simp
next
  case (Cons item items)
  obtain name hex_val where item: "item = (name, hex_val)"
    by (cases item) auto
  from Cons.prems(1) obtain st1 where
    st1: "add_new_color st (name, hex_val) = Inr st1" and rest: "add_new_colors st1 items = Inr st'"
    by (auto simp: item split: sum.splits)
  from st1 have "\<forall>e \<in> set (final_colors st1). fst e \<noteq> []"
  proof (cases rule: add_new_color_cases)
    case skip
    with Cons.prems(3) show ?thesis by simp
  next
    case (add n h r g b)
    with Cons.prems(2) item have "n \<noteq> []" by simp
    then have "title n \<noteq> []"
      by (rule title_not_empty)
    with add Cons.prems(3) show ?thesis by simp
  qed
  with Cons.IH [OF rest] Cons.prems(2) show ?case by simp
qed

section \<open>Properties of \<open>hex_to_rgb\<close>\<close>

lemma not_digits:
  "digit_value CHR 0x09 = None" "digit_value CHR 0x0A = None" "digit_value CHR 0x0B = None"
  "digit_value CHR 0x0C = None" "digit_value CHR 0x0D = None" "digit_value CHR 0x20 = None"
  "digit_value CHR ''-'' = None" "digit_value CHR ''+'' = None" "digit_value CHR ''_'' = None"
  "digit_value CHR ''#'' = None" "digit_value CHR ''x'' = None" "digit_value CHR ''X'' = None"
  "digit_value CHR 0x85 = None" "digit_value CHR 0xA0 = None"
  by (simp_all add: digit_value_def)

lemma digit_chars:
  assumes "digit_value a = Some x"
  shows "\<not> is_int_space a" "a \<noteq> CHR ''-''" "a \<noteq> CHR ''+''" "a \<noteq> CHR ''_''" "a \<noteq> CHR ''#''"
    "a \<noteq> CHR ''x''" "a \<noteq> CHR ''X''"
  using assms not_digits by (auto simp: is_int_space_def)

lemma int16_two_digits:
  assumes "digit_value a = Some x" and "digit_value b = Some y"
  shows "int16 [a, b] = Inr (int (16 * x + y))"
proof -
  have "strip_int_space [a, b] = [a, b]"
    using digit_chars(1) [OF assms(1)] digit_chars(1) [OF assms(2)] by (simp add: strip_int_space_def)
  moreover have "strip_sign [a, b] = (False, [a, b])"
    using digit_chars(2,3) [OF assms(1)] by (simp add: strip_sign_def)
  moreover have "strip_0x [a, b] = [a, b]"
    using digit_chars(6,7) [OF assms(2)] by (simp add: strip_0x_def)
  moreover have "digits16 True 0 [a, b] = Some (16 * x + y)"
    using assms digit_chars(4) [OF assms(1)] digit_chars(4) [OF assms(2)] by simp
  ultimately show ?thesis
    by (simp add: int16_def)
qed

lemma int16_error: "int16 s = Inl e \<Longrightarrow> e = ValueError"
  by (auto simp: int16_def split: prod.splits option.splits)

lemma int16_empty: "int16 [] = Inl ValueError"
  by (simp add: number_defs)

lemma hex_to_rgb_Inr:
  "hex_to_rgb h = Inr (r, g, b) \<longleftrightarrow>
     int16 (take 2 (dropWhile (\<lambda>c. c = CHR ''#'') h)) = Inr r \<and>
     int16 (take 2 (drop 2 (dropWhile (\<lambda>c. c = CHR ''#'') h))) = Inr g \<and>
     int16 (take 2 (drop 4 (dropWhile (\<lambda>c. c = CHR ''#'') h))) = Inr b"
  by (simp add: hex_to_rgb_def Let_def split: sum.split)

lemma hex_to_rgb_error: "hex_to_rgb h = Inl e \<Longrightarrow> e = ValueError"
  by (simp add: hex_to_rgb_def Let_def split: sum.splits) (blast dest: int16_error)+

lemma hex_to_rgb_slice_error:
  assumes "int16 (take 2 (drop (2 * k) (dropWhile (\<lambda>c. c = CHR ''#'') h))) = Inl ValueError" and "k < 3"
  shows "hex_to_rgb h = Inl ValueError"
proof (cases "hex_to_rgb h")
  case (Inl e)
  then show ?thesis using hex_to_rgb_error by blast
next
  case (Inr rgb)
  obtain r g b where "rgb = (r, g, b)" by (cases rgb) auto
  with Inr have slices: "int16 (take 2 (dropWhile (\<lambda>c. c = CHR ''#'') h)) = Inr r"
     "int16 (take 2 (drop 2 (dropWhile (\<lambda>c. c = CHR ''#'') h))) = Inr g"
     "int16 (take 2 (drop 4 (dropWhile (\<lambda>c. c = CHR ''#'') h))) = Inr b"
    by (simp_all add: hex_to_rgb_Inr)
  from \<open>k < 3\<close> have "k = 0 \<or> k = 1 \<or> k = 2" by arith
  then show ?thesis
    using assms(1) slices by (elim disjE) simp_all
qed

lemma hex_to_rgb_short:
  assumes "length (dropWhile (\<lambda>c. c = CHR ''#'') h) < 5"
  shows "hex_to_rgb h = Inl ValueError"
proof -
  from assms have "take 2 (drop (2 * 2) (dropWhile (\<lambda>c. c = CHR ''#'') h)) = []" by simp
  then show ?thesis
    using hex_to_rgb_slice_error [of 2 h] int16_empty by simp
qed

lemma hex_to_rgb_six_digits:
  assumes "digit_value a = Some x1" "digit_value b = Some x2" "digit_value c = Some x3"
    "digit_value d = Some x4" "digit_value e = Some x5" "digit_value f = Some x6"
  shows "hex_to_rgb (replicate k CHR ''#'' @ [a, b, c, d, e, f] @ extra) =
         Inr (int (16 * x1 + x2), int (16 * x3 + x4), int (16 * x5 + x6))"
proof -
  have "dropWhile (\<lambda>c. c = CHR ''#'') (replicate k CHR ''#'' @ [a, b, c, d, e, f] @ extra) =
        [a, b, c, d, e, f] @ extra"
    using digit_chars(5) [OF assms(1)] by (induction k) simp_all
  then show ?thesis
    using int16_two_digits [OF assms(1,2)] int16_two_digits [OF assms(3,4)]
      int16_two_digits [OF assms(5,6)]
    by (simp add: hex_to_rgb_def)
qed

lemma digits16_short:
  assumes "length u \<le> 2" and "c \<in> set u" and "digit_value c = None"
  shows "digits16 True 0 (strip_0x u) = None"
proof (cases u)
  case Nil
  with assms show ?thesis by simp
next
  case (Cons a v)
  show ?thesis
  proof (cases v)
    case Nil
    with Cons assms show ?thesis by (simp add: strip_0x_def)
  next
    case (Cons b w)
    with \<open>u = a # v\<close> assms(1) have u: "u = [a, b]" by simp
    with assms(2,3) show ?thesis
      by (auto simp: strip_0x_def split: option.splits)
  qed
qed

lemma in_set_dropWhile: "c \<in> set s \<Longrightarrow> \<not> P c \<Longrightarrow> c \<in> set (dropWhile P s)"
  by (induction s) auto

lemma strip_sign_keeps:
  assumes "strip_sign s = (negative, body)" and "c \<in> set s" and "c \<noteq> CHR ''+''" and "c \<noteq> CHR ''-''"
  shows "c \<in> set body \<and> length body \<le> length s"
proof (cases s)
  case Nil
  with assms show ?thesis by simp
next
  case (Cons a v)
  with assms show ?thesis
    by (cases "a = CHR ''-''"; cases "a = CHR ''+''") (auto simp: strip_sign_def)
qed

lemma int16_short:
  assumes "length t \<le> 2" and "c \<in> set t" and "digit_value c = None"
    and "\<not> is_int_space c" and "c \<noteq> CHR ''+''" and "c \<noteq> CHR ''-''"
  shows "int16 t = Inl ValueError"
proof -
  have in1: "c \<in> set (strip_int_space t)"
    using assms(2,4) by (simp add: strip_int_space_def in_set_dropWhile)
  have len1: "length (strip_int_space t) \<le> 2"
    using assms(1) length_dropWhile_le [of is_int_space "rev (dropWhile is_int_space t)"]
      length_dropWhile_le [of is_int_space t]
    by (simp add: strip_int_space_def)
  obtain negative body where sb: "strip_sign (strip_int_space t) = (negative, body)"
    by (cases "strip_sign (strip_int_space t)") auto
  have "c \<in> set body \<and> length body \<le> 2"
    using strip_sign_keeps [OF sb in1 assms(5,6)] len1 by simp
  then have "digits16 True 0 (strip_0x body) = None"
    using digits16_short [of body c] assms(3) by simp
  then show ?thesis
    by (simp add: int16_def sb)
qed

lemma hex_to_rgb_bad_character:
  assumes "i < 6" and "i < length (dropWhile (\<lambda>c. c = CHR ''#'') h)"
    and "digit_value (dropWhile (\<lambda>c. c = CHR ''#'') h ! i) = None"
    and "\<not> is_int_space (dropWhile (\<lambda>c. c = CHR ''#'') h ! i)"
    and "dropWhile (\<lambda>c. c = CHR ''#'') h ! i \<noteq> CHR ''+''"
    and "dropWhile (\<lambda>c. c = CHR ''#'') h ! i \<noteq> CHR ''-''"
  shows "hex_to_rgb h = Inl ValueError"
proof -
  define r where "r = dropWhile (\<lambda>c. c = CHR ''#'') h"
  define k where "k = i div 2"
  have k: "k < 3" "2 * k \<le> i" "i < 2 * k + 2"
    using assms(1) unfolding k_def by arith+
  have "r ! i \<in> set (take 2 (drop (2 * k) r))"
  proof -
    have "take 2 (drop (2 * k) r) ! (i - 2 * k) = r ! i"
      using k assms(2) by (simp add: r_def)
    moreover have "i - 2 * k < length (take 2 (drop (2 * k) r))"
      using k assms(2) by (simp add: r_def) arith
    ultimately show ?thesis
      by (metis nth_mem)
  qed
  then have "int16 (take 2 (drop (2 * k) r)) = Inl ValueError"
    using assms(3-6) by (intro int16_short [where c = "r ! i"]) (simp_all add: r_def)
  then show ?thesis
    using hex_to_rgb_slice_error [of k h] k(1) by (simp add: r_def)
qed


text \<open>White space before a digit is skipped, the no-break space as well.\<close>

lemma hex_to_rgb_no_break_space:
  "hex_to_rgb (CHR 0xA0 # ''f0000'') = Inr (15, 0, 0) \<and>
   hex_to_rgb '' f0000'' = Inr (15, 0, 0) \<and>
   hex_to_rgb (CHR 0x1C # ''f0000'') = Inl ValueError"
  by (simp add: hex_to_rgb_def number_defs)

section \<open>Properties of the scan for the closest colour\<close>

lemma closer_distance_from:
  "closer (red color) (green color) (blue color) (m, nm) e =
     (if distance_from color e < m then (distance_from color e, fst e) else (m, nm))"
  by (cases e) (simp add: closer_def distance_from_def Let_def)

lemma byte_range: "0 \<le> uint (w AND (0xFF :: 32 word)) \<and> uint (w AND (0xFF :: 32 word)) \<le> 255"
proof -
  have "w AND 0xFF \<le> (0xFF :: 32 word)"
    by (rule word_and_le1)
  then have "uint (w AND 0xFF) \<le> uint (0xFF :: 32 word)"
    by (simp add: word_le_def)
  then show ?thesis by simp
qed

lemma query_in_range:
  "0 \<le> red color \<and> red color \<le> 255 \<and> 0 \<le> green color \<and> green color \<le> 255 \<and>
   0 \<le> blue color \<and> blue color \<le> 255"
  using byte_range [of "drop_bit 16 color"] byte_range [of "drop_bit 8 color"] byte_range [of color]
  by (simp add: red_def green_def blue_def)

lemma square_bound: "0 \<le> a \<Longrightarrow> a \<le> 255 \<Longrightarrow> 0 \<le> b \<Longrightarrow> b \<le> 255 \<Longrightarrow> (real_of_int (a - b))\<^sup>2 \<le> 65025"
proof -
  assume "0 \<le> a" "a \<le> 255" "0 \<le> b" "b \<le> 255"
  then have "\<bar>real_of_int (a - b)\<bar> \<le> 255" by simp
  then have "(real_of_int (a - b))\<^sup>2 \<le> 255\<^sup>2"
    by (metis abs_le_square_iff abs_numeral)
  then show ?thesis by simp
qed

lemma distance_below_max:
  assumes "channels_in_range e"
  shows "distance_from color e < Double_MAX_VALUE"
proof -
  obtain name r2 g2 b2 where e: "e = (name, r2, g2, b2)" by (cases e) auto
  with assms have rng: "0 \<le> r2" "r2 \<le> 255" "0 \<le> g2" "g2 \<le> 255" "0 \<le> b2" "b2 \<le> 255"
    by (simp_all add: channels_in_range_def)
  have "(real_of_int (r2 - red color))\<^sup>2 + (real_of_int (g2 - green color))\<^sup>2 +
        (real_of_int (b2 - blue color))\<^sup>2 \<le> 65025 + 65025 + 65025"
    using square_bound [of r2 "red color"] square_bound [of g2 "green color"]
      square_bound [of b2 "blue color"] rng query_in_range [of color]
    by (intro add_mono) simp_all
  then have "distance_from color e < 1000"
    by (simp add: e distance_from_def calculateDistance_def real_less_lsqrt)
  moreover have "(1000 :: real) < Double_MAX_VALUE"
  proof -
    have "(1000 :: real) < 2 ^ 53 - 1" by simp
    moreover have "(1 :: real) \<le> 2 ^ 971" by simp
    ultimately have "(1000 :: real) * 1 < (2 ^ 53 - 1) * 2 ^ 971"
      by (intro mult_less_le_imp_less) simp_all
    then show ?thesis by (simp add: Double_MAX_VALUE_def)
  qed
  ultimately show ?thesis by simp
qed

lemma scan_closest:
  "(foldl (closer (red color) (green color) (blue color)) (m, nm) es = (m, nm) \<and>
      (\<forall>e \<in> set es. \<not> distance_from color e < m)) \<or>
   (\<exists>i < length es.
      foldl (closer (red color) (green color) (blue color)) (m, nm) es =
        (distance_from color (es ! i), fst (es ! i)) \<and>
      distance_from color (es ! i) < m \<and>
      (\<forall>j < length es. distance_from color (es ! i) \<le> distance_from color (es ! j)) \<and>
      (\<forall>j < i. distance_from color (es ! i) < distance_from color (es ! j)))"
  (is "?none es \<or> ?some es")
proof (induction es rule: rev_induct)
  case Nil
  then show ?case by simp
next
  case (snoc x es)
  let ?d = "distance_from color"
  let ?run = "\<lambda>es. foldl (closer (red color) (green color) (blue color)) (m, nm) es"
  from snoc show ?case
  proof
    assume none: "?none es"
    show ?thesis
    proof (cases "?d x < m")
      case False
      with none have "?none (es @ [x])"
        by (simp add: closer_distance_from)
      then show ?thesis ..
    next
      case True
      have "?run (es @ [x]) = (?d ((es @ [x]) ! length es), fst ((es @ [x]) ! length es))"
        using none True by (simp add: closer_distance_from)
      moreover have less: "?d ((es @ [x]) ! length es) < ?d ((es @ [x]) ! j)" if "j < length es" for j
      proof -
        from that have "es ! j \<in> set es" by simp
        with none have "m \<le> ?d (es ! j)" by (simp add: not_less)
        with True that show ?thesis by (simp add: nth_append)
      qed
      moreover have "?d ((es @ [x]) ! length es) \<le> ?d ((es @ [x]) ! j)" if "j < length (es @ [x])" for j
      proof (cases "j < length es")
        case True
        then show ?thesis using less [of j] by simp
      next
        case False
        with that have "j = length es" by simp
        then show ?thesis by simp
      qed
      ultimately have "?some (es @ [x])"
        using True by (intro exI [of _ "length es"]) simp
      then show ?thesis ..
    qed
  next
    assume "?some es"
    then obtain i where i: "i < length es"
      and run: "?run es = (?d (es ! i), fst (es ! i))"
      and below: "?d (es ! i) < m"
      and least: "\<forall>j < length es. ?d (es ! i) \<le> ?d (es ! j)"
      and first: "\<forall>j < i. ?d (es ! i) < ?d (es ! j)"
      by blast
    show ?thesis
    proof (cases "?d x < ?d (es ! i)")
      case True
      have "?run (es @ [x]) = (?d ((es @ [x]) ! length es), fst ((es @ [x]) ! length es))"
        using run True by (simp add: closer_distance_from)
      moreover have "?d ((es @ [x]) ! length es) \<le> ?d ((es @ [x]) ! j)" if "j < length (es @ [x])" for j
      proof (cases "j < length es")
        case True
        with least have "?d (es ! i) \<le> ?d (es ! j)" by simp
        with \<open>?d x < ?d (es ! i)\<close> True show ?thesis by (simp add: nth_append)
      next
        case False
        with that have "j = length es" by simp
        then show ?thesis by simp
      qed
      moreover have "?d ((es @ [x]) ! length es) < ?d ((es @ [x]) ! j)" if "j < length es" for j
      proof -
        from least that have "?d (es ! i) \<le> ?d (es ! j)" by simp
        with \<open>?d x < ?d (es ! i)\<close> that show ?thesis by (simp add: nth_append)
      qed
      moreover have "?d ((es @ [x]) ! length es) < m"
        using True below by simp
      ultimately have "?some (es @ [x])"
        by (intro exI [of _ "length es"]) simp
      then show ?thesis ..
    next
      case False
      have "?run (es @ [x]) = (?d ((es @ [x]) ! i), fst ((es @ [x]) ! i))"
        using run False i by (simp add: closer_distance_from nth_append)
      moreover have "?d ((es @ [x]) ! i) \<le> ?d ((es @ [x]) ! j)" if "j < length (es @ [x])" for j
      proof (cases "j < length es")
        case True
        with least i show ?thesis by (simp add: nth_append)
      next
        case False
        with that have "j = length es" by simp
        with \<open>\<not> ?d x < ?d (es ! i)\<close> i show ?thesis by (simp add: nth_append)
      qed
      moreover have "?d ((es @ [x]) ! i) < ?d ((es @ [x]) ! j)" if "j < i" for j
        using that first i by (simp add: nth_append)
      moreover have "?d ((es @ [x]) ! i) < m"
        using below i by (simp add: nth_append)
      ultimately have "?some (es @ [x])"
        using i by (intro exI [of _ i]) simp
      then show ?thesis ..
    qed
  qed
qed

text \<open>
  The channels of the colour asked for, and the distance from it, in arithmetic: the channels
  are the digits of the colour in base 256, from the third to the first.
\<close>

lemma low_byte: "uint ((w :: 32 word) AND 0xFF) = uint w mod 256"
proof -
  have "uint (w AND 0xFF) = uint w AND 255"
    by (simp add: uint_and)
  also have "(255 :: int) = mask 8"
    by (simp add: mask_eq_exp_minus_1)
  also have "uint w AND mask 8 = uint w mod 2 ^ 8"
    by (simp only: take_bit_eq_mod flip: take_bit_eq_mask)
  finally show ?thesis by simp
qed

lemma shifted_right: "uint (drop_bit n (w :: 32 word)) = uint w div 2 ^ n"
proof -
  have whole: "take_bit 32 (uint w) = uint w"
    using uint_lt2p [of w] by (simp add: take_bit_eq_mod)
  have "uint (drop_bit n w) = drop_bit n (take_bit 32 (uint w))"
    by (simp add: unsigned_drop_bit_eq)
  also have "\<dots> = drop_bit n (uint w)"
    by (simp only: whole)
  also have "\<dots> = uint w div 2 ^ n"
    by (rule drop_bit_eq_div)
  finally show ?thesis .
qed

lemma channels_of_colour:
  "red color = (uint color div 65536) mod 256"
  "green color = (uint color div 256) mod 256"
  "blue color = uint color mod 256"
  by (simp_all add: red_def green_def blue_def low_byte shifted_right)

lemma distance_from_formula:
  "distance_from color (name, r2, g2, b2) =
     sqrt (real_of_int ((r2 - (uint color div 65536) mod 256)\<^sup>2 +
                        (g2 - (uint color div 256) mod 256)\<^sup>2 +
                        (b2 - uint color mod 256)\<^sup>2))"
  by (simp add: distance_from_def calculateDistance_def channels_of_colour)

section \<open>Properties of the merge: priority, and hexes in the normalized form\<close>

lemma add_new_colors_append:
  "add_new_colors st (xs @ ys) =
     (case add_new_colors st xs of Inl e \<Rightarrow> Inl e | Inr st' \<Rightarrow> add_new_colors st' ys)"
  by (induction xs arbitrary: st) (simp_all split: sum.splits)

lemma add_new_color_grows:
  assumes "add_new_color st item = Inr st'"
  shows "seen_hex st \<subseteq> seen_hex st' \<and> seen_names st \<subseteq> seen_names st'"
proof -
  obtain name hex_val where "item = (name, hex_val)" by (cases item) auto
  with assms have "add_new_color st (name, hex_val) = Inr st'" by simp
  then show ?thesis
    by (cases rule: add_new_color_cases) auto
qed

lemma add_new_colors_grows:
  "add_new_colors st items = Inr st' \<Longrightarrow> seen_hex st \<subseteq> seen_hex st' \<and> seen_names st \<subseteq> seen_names st'"
proof (induction items arbitrary: st)
  case Nil
  then show ?case by simp
next
  case (Cons item items)
  from Cons.prems obtain st1 where
    st1: "add_new_color st item = Inr st1" and rest: "add_new_colors st1 items = Inr st'"
    by (auto split: sum.splits)
  from add_new_color_grows [OF st1] Cons.IH [OF rest] show ?case by blast
qed

lemma keep_existing_seen:
  "(name, r, g, b) \<in> set existing \<Longrightarrow>
   format_hex r g b \<in> seen_hex (foldl keep_existing st existing) \<and>
   lower name \<in> seen_names (foldl keep_existing st existing)"
proof (induction existing arbitrary: st rule: rev_induct)
  case Nil
  then show ?case by simp
next
  case (snoc e existing)
  then show ?case
    by (cases e) (auto simp: keep_existing_def)
qed

lemma seen_is_skipped:
  "h \<in> seen_hex st \<or> lower (title n) \<in> seen_names st \<Longrightarrow> add_new_color st (JStr n, JStr h) = Inr st"
  by (simp add: add_new_color_str)

lemma existing_colour_has_priority:
  assumes "(name, r, g, b) \<in> set existing"
    and "h = format_hex r g b \<or> lower (title n) = lower name"
  shows "merge existing (before @ (JStr n, JStr h) # after) = merge existing (before @ after)"
proof -
  let ?st = "foldl keep_existing initial_state existing"
  have "add_new_colors ?st (before @ (JStr n, JStr h) # after) = add_new_colors ?st (before @ after)"
  proof (cases "add_new_colors ?st before")
    case (Inl e)
    then show ?thesis by (simp add: add_new_colors_append)
  next
    case (Inr st1)
    from keep_existing_seen [OF assms(1), of initial_state] assms(2) add_new_colors_grows [OF Inr]
    have "h \<in> seen_hex st1 \<or> lower (title n) \<in> seen_names st1"
      by auto
    then have "add_new_color st1 (JStr n, JStr h) = Inr st1"
      by (rule seen_is_skipped)
    with Inr show ?thesis by (simp add: add_new_colors_append)
  qed
  then show ?thesis
    by (simp add: merge_def)
qed


lemma keep_existing_agrees:
  "seen_agrees st \<Longrightarrow> seen_agrees (foldl keep_existing st existing)"
proof (induction existing arbitrary: st)
  case Nil
  then show ?case by simp
next
  case (Cons e existing)
  have "seen_agrees (keep_existing st e)"
    using Cons.prems by (cases e) (auto simp: seen_agrees_def keep_existing_def hex_key_def)
  then show ?case
    using Cons.IH by simp
qed

lemma initial_agrees: "seen_agrees initial_state"
  by (simp add: seen_agrees_def initial_state_def)

lemma add_new_color_agrees:
  assumes "add_new_color st (name, hex_val) = Inr st'" and "seen_agrees st" and "normalized hex_val"
  shows "seen_agrees st'"
  using assms(1)
proof (cases rule: add_new_color_cases)
  case skip
  with assms(2) show ?thesis by simp
next
  case (add n h r g b)
  with assms(3) have "format_hex r g b = h"
    by (simp add: normalized_def)
  with add assms(2) show ?thesis
    by (auto simp: seen_agrees_def hex_key_def)
qed

lemma add_new_color_distinct:
  assumes "add_new_color st (name, hex_val) = Inr st'" and "seen_agrees st" and "normalized hex_val"
    and "distinct (map hex_key (final_colors st))"
  shows "distinct (map hex_key (final_colors st'))"
  using assms(1)
proof (cases rule: add_new_color_cases)
  case skip
  with assms(4) show ?thesis by simp
next
  case (add n h r g b)
  with assms(3) have "format_hex r g b = h"
    by (simp add: normalized_def)
  with add assms(2,4) show ?thesis
    by (auto simp: seen_agrees_def hex_key_def)
qed

lemma add_new_colors_agrees:
  "add_new_colors st items = Inr st' \<Longrightarrow> seen_agrees st \<Longrightarrow> \<forall>x \<in> set items. normalized (snd x) \<Longrightarrow>
   seen_agrees st' \<and> (distinct (map hex_key (final_colors st)) \<longrightarrow> distinct (map hex_key (final_colors st')))"
proof (induction items arbitrary: st)
  case Nil
  then show ?case by simp
next
  case (Cons item items)
  obtain name hex_val where item: "item = (name, hex_val)" by (cases item) auto
  from Cons.prems(1) obtain st1 where
    st1: "add_new_color st (name, hex_val) = Inr st1" and rest: "add_new_colors st1 items = Inr st'"
    by (auto simp: item split: sum.splits)
  from Cons.prems(3) item have norm: "normalized hex_val" by simp
  have agrees: "seen_agrees st1"
    using add_new_color_agrees [OF st1 Cons.prems(2) norm] .
  have "distinct (map hex_key (final_colors st1))" if "distinct (map hex_key (final_colors st))"
    using add_new_color_distinct [OF st1 Cons.prems(2) norm that] .
  with Cons.IH [OF rest agrees] Cons.prems(3) show ?case by simp
qed

lemma settled_later:
  assumes "add_new_color st item = Inr st'"
    and "seen_hex st' \<subseteq> seen_hex t" and "seen_names st' \<subseteq> seen_names t"
  shows "add_new_color t item = Inr t"
proof -
  obtain name hex_val where item: "item = (name, hex_val)" by (cases item) auto
  from assms(1) item obtain n where n: "name = JStr n"
    using add_new_color_not_str_name [of name st hex_val] by (cases name) auto
  show ?thesis
  proof (cases hex_val)
    case (JStr h)
    have "h \<in> seen_hex st' \<or> lower (title n) \<in> seen_names st' \<or> (\<exists>e. hex_to_rgb h = Inl e)"
    proof (cases "h \<in> seen_hex st \<or> lower (title n) \<in> seen_names st")
      case True
      with assms(1) have "st' = st" by (simp add: item n JStr add_new_color_str)
      with True show ?thesis by blast
    next
      case False
      show ?thesis
      proof (cases "hex_to_rgb h")
        case (Inl e)
        then show ?thesis by blast
      next
        case (Inr rgb)
        with assms(1) False have "h \<in> seen_hex st'"
          by (cases rgb) (auto simp: item n JStr add_new_color_str)
        then show ?thesis by blast
      qed
    qed
    with assms(2,3) show ?thesis
      by (auto simp: item n JStr add_new_color_str)
  next
    case JNull
    then show ?thesis by (simp add: item n add_new_color_def Let_def)
  next
    case (JBool x)
    then show ?thesis by (simp add: item n add_new_color_def Let_def)
  next
    case (JNum x)
    then show ?thesis by (simp add: item n add_new_color_def Let_def)
  next
    case (JList x)
    with assms(1) show ?thesis by (simp add: item n add_new_color_def Let_def)
  next
    case (JObj x)
    with assms(1) show ?thesis by (simp add: item n add_new_color_def Let_def)
  qed
qed

lemma all_settled:
  "\<forall>item \<in> set items. add_new_color t item = Inr t \<Longrightarrow> add_new_colors t items = Inr t"
  by (induction items) simp_all

lemma add_new_colors_settled:
  "add_new_colors st items = Inr st' \<Longrightarrow>
   seen_hex st' \<subseteq> seen_hex t \<Longrightarrow> seen_names st' \<subseteq> seen_names t \<Longrightarrow>
   \<forall>item \<in> set items. add_new_color t item = Inr t"
proof (induction items arbitrary: st)
  case Nil
  then show ?case by simp
next
  case (Cons item items)
  from Cons.prems(1) obtain st1 where
    st1: "add_new_color st item = Inr st1" and rest: "add_new_colors st1 items = Inr st'"
    by (auto split: sum.splits)
  from add_new_colors_grows [OF rest] Cons.prems(2,3)
  have "seen_hex st1 \<subseteq> seen_hex t" "seen_names st1 \<subseteq> seen_names t" by auto
  with st1 have "add_new_color t item = Inr t" by (rule settled_later)
  with Cons.IH [OF rest Cons.prems(2,3)] show ?case by simp
qed

lemma merge_normalized_distinct:
  assumes "\<forall>x \<in> set items. normalized (snd x)" and "merge existing items = Inr (colors, n)"
    and "distinct (map hex_key existing)"
  shows "distinct (map hex_key colors)"
proof -
  let ?st = "foldl keep_existing initial_state existing"
  from assms(2) obtain st where st: "add_new_colors ?st items = Inr st" and res: "colors = final_colors st"
    by (auto simp: merge_def split: sum.splits)
  have "seen_agrees ?st"
    using initial_agrees by (rule keep_existing_agrees)
  moreover have "distinct (map hex_key (final_colors ?st))"
    using assms(3) by (simp add: keep_existing_final_colors initial_state_def)
  ultimately show ?thesis
    using add_new_colors_agrees [OF st _ assms(1)] res by simp
qed

lemma merge_normalized_idempotent:
  assumes "\<forall>x \<in> set items. normalized (snd x)" and "merge existing items = Inr (colors, n)"
  shows "merge colors items = Inr (colors, 0)"
proof -
  let ?st = "foldl keep_existing initial_state existing"
  let ?t = "foldl keep_existing initial_state colors"
  from assms(2) obtain st where st: "add_new_colors ?st items = Inr st" and res: "colors = final_colors st"
    by (auto simp: merge_def split: sum.splits)
  have "seen_agrees ?st"
    using initial_agrees by (rule keep_existing_agrees)
  with add_new_colors_agrees [OF st _ assms(1)] have st_agrees: "seen_agrees st" by simp
  have t_agrees: "seen_agrees ?t"
    using initial_agrees by (rule keep_existing_agrees)
  have t_colors: "final_colors ?t = colors" "added_count ?t = 0"
    by (simp_all add: keep_existing_final_colors keep_existing_added_count initial_state_def)
  from st_agrees t_agrees res t_colors have "seen_hex st = seen_hex ?t" "seen_names st = seen_names ?t"
    by (simp_all add: seen_agrees_def)
  then have "\<forall>item \<in> set items. add_new_color ?t item = Inr ?t"
    using add_new_colors_settled [OF st, of ?t] by simp
  then have "add_new_colors ?t items = Inr ?t"
    by (rule all_settled)
  with t_colors show ?thesis
    by (simp add: merge_def)
qed


lemma lowercase_digit:
  assumes "a \<in> set hex_digits"
  obtains x where "x < 16" "digit_value a = Some x" "hex_digits ! x = a"
proof -
  from assms have "a = CHR ''0'' \<or> a = CHR ''1'' \<or> a = CHR ''2'' \<or> a = CHR ''3'' \<or> a = CHR ''4'' \<or>
      a = CHR ''5'' \<or> a = CHR ''6'' \<or> a = CHR ''7'' \<or> a = CHR ''8'' \<or> a = CHR ''9'' \<or> a = CHR ''a'' \<or>
      a = CHR ''b'' \<or> a = CHR ''c'' \<or> a = CHR ''d'' \<or> a = CHR ''e'' \<or> a = CHR ''f''"
    by (simp add: hex_digits_def)
  then have "\<exists>x < 16. digit_value a = Some x \<and> hex_digits ! x = a"
  proof (elim disjE)
    assume "a = CHR ''0''" then show ?thesis by (intro exI [of _ 0]) (simp add: digit_value_def hex_digits_def)
  next
    assume "a = CHR ''1''" then show ?thesis by (intro exI [of _ 1]) (simp add: digit_value_def hex_digits_def)
  next
    assume "a = CHR ''2''" then show ?thesis by (intro exI [of _ 2]) (simp add: digit_value_def hex_digits_def)
  next
    assume "a = CHR ''3''" then show ?thesis by (intro exI [of _ 3]) (simp add: digit_value_def hex_digits_def)
  next
    assume "a = CHR ''4''" then show ?thesis by (intro exI [of _ 4]) (simp add: digit_value_def hex_digits_def)
  next
    assume "a = CHR ''5''" then show ?thesis by (intro exI [of _ 5]) (simp add: digit_value_def hex_digits_def)
  next
    assume "a = CHR ''6''" then show ?thesis by (intro exI [of _ 6]) (simp add: digit_value_def hex_digits_def)
  next
    assume "a = CHR ''7''" then show ?thesis by (intro exI [of _ 7]) (simp add: digit_value_def hex_digits_def)
  next
    assume "a = CHR ''8''" then show ?thesis by (intro exI [of _ 8]) (simp add: digit_value_def hex_digits_def)
  next
    assume "a = CHR ''9''" then show ?thesis by (intro exI [of _ 9]) (simp add: digit_value_def hex_digits_def)
  next
    assume "a = CHR ''a''" then show ?thesis by (intro exI [of _ 10]) (simp add: digit_value_def hex_digits_def)
  next
    assume "a = CHR ''b''" then show ?thesis by (intro exI [of _ 11]) (simp add: digit_value_def hex_digits_def)
  next
    assume "a = CHR ''c''" then show ?thesis by (intro exI [of _ 12]) (simp add: digit_value_def hex_digits_def)
  next
    assume "a = CHR ''d''" then show ?thesis by (intro exI [of _ 13]) (simp add: digit_value_def hex_digits_def)
  next
    assume "a = CHR ''e''" then show ?thesis by (intro exI [of _ 14]) (simp add: digit_value_def hex_digits_def)
  next
    assume "a = CHR ''f''" then show ?thesis by (intro exI [of _ 15]) (simp add: digit_value_def hex_digits_def)
  qed
  then show ?thesis using that by blast
qed

lemma format_02x_two_digits:
  assumes "x < 16" and "y < 16"
  shows "format_02x (int (16 * x + y)) = [hex_digits ! x, hex_digits ! y]"
proof (cases "x = 0")
  case True
  with assms show ?thesis
    by (simp add: format_02x_def hex_of_nat.simps [of y] hex_digits_def)
next
  case False
  with assms have "hex_of_nat (16 * x + y) = hex_of_nat x @ [hex_digits ! y]"
    by (simp add: hex_of_nat.simps [of "16 * x + y"])
  with assms show ?thesis
    by (simp add: format_02x_def hex_of_nat.simps [of x] nat_add_distrib nat_mult_distrib)
qed

lemma six_lowercase_digits_normalized:
  assumes "set [a, b, c, d, e, f] \<subseteq> set hex_digits"
  shows "normalized (JStr (CHR ''#'' # [a, b, c, d, e, f]))"
proof -
  from assms have "a \<in> set hex_digits" "b \<in> set hex_digits" "c \<in> set hex_digits"
    "d \<in> set hex_digits" "e \<in> set hex_digits" "f \<in> set hex_digits"
    by simp_all
  from this(1) obtain x1 where x1: "x1 < 16" "digit_value a = Some x1" "hex_digits ! x1 = a"
    by (rule lowercase_digit)
  from \<open>b \<in> set hex_digits\<close> obtain x2 where x2: "x2 < 16" "digit_value b = Some x2" "hex_digits ! x2 = b"
    by (rule lowercase_digit)
  from \<open>c \<in> set hex_digits\<close> obtain x3 where x3: "x3 < 16" "digit_value c = Some x3" "hex_digits ! x3 = c"
    by (rule lowercase_digit)
  from \<open>d \<in> set hex_digits\<close> obtain x4 where x4: "x4 < 16" "digit_value d = Some x4" "hex_digits ! x4 = d"
    by (rule lowercase_digit)
  from \<open>e \<in> set hex_digits\<close> obtain x5 where x5: "x5 < 16" "digit_value e = Some x5" "hex_digits ! x5 = e"
    by (rule lowercase_digit)
  from \<open>f \<in> set hex_digits\<close> obtain x6 where x6: "x6 < 16" "digit_value f = Some x6" "hex_digits ! x6 = f"
    by (rule lowercase_digit)
  note x = x1(1) x2(1) x3(1) x4(1) x5(1) x6(1)
  note v = x1(2) x2(2) x3(2) x4(2) x5(2) x6(2)
  note p = x1(3) x2(3) x3(3) x4(3) x5(3) x6(3)
  have "hex_to_rgb (CHR ''#'' # [a, b, c, d, e, f]) =
        Inr (int (16 * x1 + x2), int (16 * x3 + x4), int (16 * x5 + x6))"
    using hex_to_rgb_six_digits [OF v, of 1 "[]"] by simp
  moreover have "format_hex (int (16 * x1 + x2)) (int (16 * x3 + x4)) (int (16 * x5 + x6)) =
        CHR ''#'' # [a, b, c, d, e, f]"
    using format_02x_two_digits [OF x(1,2)] format_02x_two_digits [OF x(3,4)]
      format_02x_two_digits [OF x(5,6)] p
    by (simp only: format_hex_def append.simps)
  ultimately show ?thesis
    by (simp add: normalized_def)
qed


section \<open>Title-casing\<close>




section \<open>Writing and reading back\<close>

text \<open>
  Claim C4 at a name with double quotes. The comment in the code says that quotes in names
  are escaped, but the replacement puts a double quote for a double quote; the line of the
  colour \<open>Say "Hi"\<close> is written with the quotes as they are, the pattern does not match it,
  and reading the output back gives no colour where one was written. (For colours whose
  names are not empty and have neither a double quote nor a carriage return, and whose
  components are not negative and have at most 4300 digits, \<open>round_trip_quote_free\<close> shows
  that the output is read back as it was written.)
\<close>

theorem quoted_name_is_lost:
  "existing_colors (full_content [(''Say '' @ [dquote] @ ''Hi'' @ [dquote], 1, 2, 3)]) = []"
proof -
  have "findall (full_content [(''Say '' @ [dquote] @ ''Hi'' @ [dquote], 1, 2, 3)]) =
        findall ([newline] @ footer)"
    unfolding full_content_def by (simp only: join.simps list.map findall_header item_no_match)
  also have "\<dots> = []"
    by (simp add: findall_footer pattern_match_def newline_def)
  finally show ?thesis
    by (simp add: existing_colors_def)
qed

section \<open>The count and the order of the merge\<close>

text \<open>
  Claim C9. When the name and the hex of every record are strings the merge returns; and
  whenever it returns, the existing colours are the first elements of the result, in their
  order and unchanged, and the count is the number of elements that follow them.
\<close>

theorem added_count_and_prefix:
  "((\<forall>x \<in> set parsed_new_colors. is_str (fst x) \<and> is_str (snd x)) \<longrightarrow>
      (\<exists>colors n. merge existing parsed_new_colors = Inr (colors, n))) \<and>
   (merge existing parsed_new_colors = Inr (colors, n) \<longrightarrow>
      take (length existing) colors = existing \<and> length colors = length existing + n)"
proof (rule conjI)
  show "(\<forall>x \<in> set parsed_new_colors. is_str (fst x) \<and> is_str (snd x)) \<longrightarrow>
      (\<exists>colors n. merge existing parsed_new_colors = Inr (colors, n))"
  proof
    assume "\<forall>x \<in> set parsed_new_colors. is_str (fst x) \<and> is_str (snd x)"
    then obtain st where
      "add_new_colors (foldl keep_existing initial_state existing) parsed_new_colors = Inr st"
      using add_new_colors_strings by blast
    then show "\<exists>colors n. merge existing parsed_new_colors = Inr (colors, n)"
      by (simp add: merge_def)
  qed
next
  show "merge existing parsed_new_colors = Inr (colors, n) \<longrightarrow>
      take (length existing) colors = existing \<and> length colors = length existing + n"
  proof
    assume "merge existing parsed_new_colors = Inr (colors, n)"
    then obtain st where
      st: "add_new_colors (foldl keep_existing initial_state existing) parsed_new_colors = Inr st"
      and res: "colors = final_colors st" "n = added_count st"
      by (auto simp: merge_def split: sum.splits)
    from add_new_colors_extends [OF st] obtain new where
      "final_colors st = existing @ new" "added_count st = length new"
      by (auto simp: keep_existing_final_colors keep_existing_added_count initial_state_def)
    with res show "take (length existing) colors = existing \<and> length colors = length existing + n"
      by simp
  qed
qed

theorem added_count_and_prefix_witness:
  "merge [(''Crimson'', 220, 20, 60)] [(JStr ''crimson'', JStr ''#dc143c''), (JStr ''Green'', JStr ''#00ff00'')] =
     Inr ([(''Crimson'', 220, 20, 60), (''Green'', 0, 255, 0)], 1) \<and>
   take (length ([(''Crimson'', 220, 20, 60)] :: named_color list))
     [(''Crimson'', 220, 20, 60), (''Green'', 0, 255, 0)] = ([(''Crimson'', 220, 20, 60)] :: named_color list) \<and>
   length ([(''Crimson'', 220, 20, 60), (''Green'', 0, 255, 0)] :: named_color list) =
     length ([(''Crimson'', 220, 20, 60)] :: named_color list) + 1"
proof -
  have run: "merge [(''Crimson'', 220, 20, 60)] [(JStr ''crimson'', JStr ''#dc143c''), (JStr ''Green'', JStr ''#00ff00'')] =
     Inr ([(''Crimson'', 220, 20, 60), (''Green'', 0, 255, 0)], 1)"
    by (simp add: merge_defs)
  from added_count_and_prefix [THEN conjunct2, rule_format, OF run] run
  show ?thesis by simp
qed


section \<open>Records without a name\<close>

text \<open>
  Claim C6, as the code has it. Of a fetched list of dictionaries exactly the records whose
  name and hex are both present and truthy (for a string: not empty) are kept, in order, and
  the others are dropped without an error. No step rejects a name afterwards, and none empties
  one: merging the records of a fetched list into colours with names that are not empty gives
  colours with names that are not empty.
\<close>

theorem listed_records_have_names:
  "adapt_structure (JList (map JObj ds)) =
     Inr (filter (\<lambda>(name, hex_val). truthy name \<and> truthy hex_val)
            (map (\<lambda>d. (dict_get d ''name'', dict_get d ''hex'')) ds)) \<and>
   (adapt_structure (JList items) = Inr parsed_new_colors \<and>
    merge existing parsed_new_colors = Inr (colors, n) \<and> (\<forall>e \<in> set existing. fst e \<noteq> []) \<longrightarrow>
      (\<forall>e \<in> set colors. fst e \<noteq> []))"
proof (rule conjI)
  show "adapt_structure (JList (map JObj ds)) =
     Inr (filter (\<lambda>(name, hex_val). truthy name \<and> truthy hex_val)
            (map (\<lambda>d. (dict_get d ''name'', dict_get d ''hex'')) ds))"
    by (simp add: adapt_structure_def adapt_list_dicts)
next
  show "adapt_structure (JList items) = Inr parsed_new_colors \<and>
    merge existing parsed_new_colors = Inr (colors, n) \<and> (\<forall>e \<in> set existing. fst e \<noteq> []) \<longrightarrow>
      (\<forall>e \<in> set colors. fst e \<noteq> [])"
  proof
    assume a: "adapt_structure (JList items) = Inr parsed_new_colors \<and>
      merge existing parsed_new_colors = Inr (colors, n) \<and> (\<forall>e \<in> set existing. fst e \<noteq> [])"
    then have "adapt_list [] items = Inr parsed_new_colors"
      by (simp add: adapt_structure_def)
    then have truthy: "\<forall>x \<in> set parsed_new_colors. truthy (fst x)"
      using adapt_list_truthy [of "[]" items parsed_new_colors] by simp
    from a obtain st where
      st: "add_new_colors (foldl keep_existing initial_state existing) parsed_new_colors = Inr st"
      and res: "colors = final_colors st"
      by (auto simp: merge_def split: sum.splits)
    have "\<forall>e \<in> set (final_colors (foldl keep_existing initial_state existing)). fst e \<noteq> []"
      using a by (simp add: keep_existing_final_colors initial_state_def)
    with add_new_colors_names [OF st truthy] res show "\<forall>e \<in> set colors. fst e \<noteq> []"
      by simp
  qed
qed

theorem listed_records_have_names_witness:
  "adapt_structure (JList [JObj [(''name'', JStr ''green''), (''hex'', JStr ''#00ff00'')],
                           JObj [(''name'', JStr ''''), (''hex'', JStr ''#000000'')],
                           JObj [(''hex'', JStr ''#ffffff'')]]) =
     Inr [(JStr ''green'', JStr ''#00ff00'')] \<and>
   merge [(''Crimson'', 220, 20, 60)] [(JStr ''green'', JStr ''#00ff00'')] =
     Inr ([(''Crimson'', 220, 20, 60), (''Green'', 0, 255, 0)], 1) \<and>
   list_all (\<lambda>e. fst e \<noteq> []) ([(''Crimson'', 220, 20, 60), (''Green'', 0, 255, 0)] :: named_color list)"
proof -
  have adapt: "adapt_structure (JList [JObj [(''name'', JStr ''green''), (''hex'', JStr ''#00ff00'')],
                           JObj [(''name'', JStr ''''), (''hex'', JStr ''#000000'')],
                           JObj [(''hex'', JStr ''#ffffff'')]]) =
     Inr [(JStr ''green'', JStr ''#00ff00'')]"
    by (simp add: adapt_structure_def adapt_list_dict dict_get_def)
  have run: "merge [(''Crimson'', 220, 20, 60)] [(JStr ''green'', JStr ''#00ff00'')] =
     Inr ([(''Crimson'', 220, 20, 60), (''Green'', 0, 255, 0)], 1)"
    by (simp add: merge_defs)
  have old: "\<forall>e \<in> set ([(''Crimson'', 220, 20, 60)] :: named_color list). fst e \<noteq> []"
    by simp
  from listed_records_have_names [THEN conjunct2, THEN mp, OF conjI [OF adapt conjI [OF run old]]]
  have "\<forall>e \<in> set ([(''Crimson'', 220, 20, 60), (''Green'', 0, 255, 0)] :: named_color list). fst e \<noteq> []" .
  then have "list_all (\<lambda>e. fst e \<noteq> []) ([(''Crimson'', 220, 20, 60), (''Green'', 0, 255, 0)] :: named_color list)"
    by (simp only: list_all_iff)
  with adapt run show ?thesis by blast
qed

text \<open>
  Claim C6 as stated fails: a name made of a blank is truthy, is kept, and is admitted as it
  is, so the colours produced hold a name that is white space only.
\<close>

theorem blank_name_is_admitted:
  "adapt_structure (JList [JObj [(''name'', JStr '' ''), (''hex'', JStr ''#ff0000'')]]) =
     Inr [(JStr '' '', JStr ''#ff0000'')] \<and>
   merge [] [(JStr '' '', JStr ''#ff0000'')] = Inr ([('' '', 255, 0, 0)], 1)"
  by (simp add: adapt_structure_def adapt_list_dict dict_get_def merge_defs)


section \<open>A fetched list with an element that is not a dictionary\<close>

text \<open>
  Claim C10. When the fetched data is a list with an element that is not a dictionary, the
  adaptation raises \<open>AttributeError\<close>, and the run ends with it: nothing is merged or written.
\<close>

theorem non_mapping_element_aborts:
  "\<exists>item \<in> set items. \<not> is_dict item \<Longrightarrow>
   adapt_structure (JList items) = Inl AttributeError \<and> main (JList items) content = Inl AttributeError"
  by (simp add: adapt_structure_def main_def adapt_list_not_dict)

theorem non_mapping_element_aborts_witness:
  "adapt_structure (JList [JObj [(''name'', JStr ''green''), (''hex'', JStr ''#00ff00'')], JStr ''red'']) =
     Inl AttributeError \<and>
   main (JList [JObj [(''name'', JStr ''green''), (''hex'', JStr ''#00ff00'')], JStr ''red'']) [] =
     Inl AttributeError"
  using non_mapping_element_aborts
          [of "[JObj [(''name'', JStr ''green''), (''hex'', JStr ''#00ff00'')], JStr ''red'']" "[]"]
  by simp


section \<open>Colours that collide on their hex\<close>

text \<open>
  The existing colours are recorded in \<open>seen_hex\<close> under the key that \<open>format_hex\<close> gives, and
  a record is looked up and recorded under its hex as it came. For hexes in the normalized
  form the two agree: \<open>merge_normalized_distinct\<close> shows that no two colours of the result
  have the same key, \<open>merge_normalized_idempotent\<close> that a second merge of the same records
  adds nothing, and \<open>existing_colour_has_priority\<close> that a record with the name or the key of
  an existing colour has no effect. For a hex written otherwise they do not.
\<close>

text \<open>
  Claim C1 at the existing colour \<open>Red\<close> \<open>(255, 0, 0)\<close> and the record \<open>rouge\<close> with the hex
  \<open>#FF0000\<close>. The key of the existing colour in \<open>seen_hex\<close> is \<open>#ff0000\<close>, the record is
  looked up under its hex as it came, is not found, and is admitted: the result holds two
  colours with the components \<open>(255, 0, 0)\<close>, that is with the same hex.
\<close>

theorem same_colour_admitted_twice:
  "merge [(''Red'', 255, 0, 0)] [(JStr ''rouge'', JStr ''#FF0000'')] =
     Inr ([(''Red'', 255, 0, 0), (''Rouge'', 255, 0, 0)], 1) \<and>
   map hex_key [(''Red'', 255, 0, 0), (''Rouge'', 255, 0, 0)] = [''#ff0000'', ''#ff0000'']"
  by (simp add: merge_defs hex_key_def)

text \<open>
  Claim C2 at the existing colour \<open>Crimson\<close> \<open>(220, 20, 60)\<close> and the record \<open>ruby\<close> with the
  hex \<open>dc143c\<close>, which \<open>hex_to_rgb\<close> reads as \<open>(220, 20, 60)\<close>: the hex of the record is that of
  the existing colour, and the record is admitted all the same.
\<close>

theorem colliding_record_admitted:
  "merge [(''Crimson'', 220, 20, 60)] [(JStr ''ruby'', JStr ''dc143c'')] =
     Inr ([(''Crimson'', 220, 20, 60), (''Ruby'', 220, 20, 60)], 1) \<and>
   hex_to_rgb ''dc143c'' = Inr (220, 20, 60)"
  by (simp add: merge_defs)

text \<open>
  Claim C3 at no existing colour and the records \<open>red\<close> and \<open>rouge\<close>, both with the hex
  \<open>#FF0000\<close>. The first merge admits \<open>Red\<close> and skips \<open>rouge\<close>, whose hex has been seen as it
  came; merging the same records into the result admits \<open>Rouge\<close>, since the key of \<open>Red\<close> is
  now \<open>#ff0000\<close>: the second result differs from the first and its count is 1.
\<close>

theorem second_merge_adds:
  "merge [] [(JStr ''red'', JStr ''#FF0000''), (JStr ''rouge'', JStr ''#FF0000'')] =
     Inr ([(''Red'', 255, 0, 0)], 1) \<and>
   merge [(''Red'', 255, 0, 0)] [(JStr ''red'', JStr ''#FF0000''), (JStr ''rouge'', JStr ''#FF0000'')] =
     Inr ([(''Red'', 255, 0, 0), (''Rouge'', 255, 0, 0)], 1)"
  by (simp add: merge_defs)


section \<open>Reading a hex\<close>

text \<open>
  Claim C5, as the code has it. \<open>hex_to_rgb\<close> removes every leading \<open>#\<close> and reads the first
  six characters of what remains, two by two, in base 16. When these six are hexadecimal
  digits it returns their three values, whatever follows them. It raises when fewer than
  five characters remain, and when one of the first six is neither a hexadecimal digit, nor
  a sign, nor the white space that \<open>int\<close> skips (a tab, a line feed, a vertical tab, a form
  feed, a carriage return, a space, \<open>U+0085\<close> or the no-break space \<open>U+00A0\<close>). A record
  whose hex makes it raise is skipped: the colours, the two sets and the count stay as they
  are.
\<close>

theorem hex_to_rgb_reads_six_characters:
  "(digit_value a = Some x1 \<and> digit_value b = Some x2 \<and> digit_value c = Some x3 \<and>
    digit_value d = Some x4 \<and> digit_value e = Some x5 \<and> digit_value f = Some x6 \<longrightarrow>
      hex_to_rgb (replicate k CHR ''#'' @ [a, b, c, d, e, f] @ extra) =
        Inr (int (16 * x1 + x2), int (16 * x3 + x4), int (16 * x5 + x6))) \<and>
   (length (dropWhile (\<lambda>c. c = CHR ''#'') h) < 5 \<longrightarrow> hex_to_rgb h = Inl ValueError) \<and>
   (i < 6 \<and> i < length (dropWhile (\<lambda>c. c = CHR ''#'') h) \<and>
    digit_value (dropWhile (\<lambda>c. c = CHR ''#'') h ! i) = None \<and>
    \<not> is_int_space (dropWhile (\<lambda>c. c = CHR ''#'') h ! i) \<and>
    dropWhile (\<lambda>c. c = CHR ''#'') h ! i \<noteq> CHR ''+'' \<and>
    dropWhile (\<lambda>c. c = CHR ''#'') h ! i \<noteq> CHR ''-'' \<longrightarrow> hex_to_rgb h = Inl ValueError) \<and>
   (hex_to_rgb h = Inl err \<longrightarrow> add_new_color st (JStr name, JStr h) = Inr st)"
proof (intro conjI impI)
  assume "digit_value a = Some x1 \<and> digit_value b = Some x2 \<and> digit_value c = Some x3 \<and>
    digit_value d = Some x4 \<and> digit_value e = Some x5 \<and> digit_value f = Some x6"
  then show "hex_to_rgb (replicate k CHR ''#'' @ [a, b, c, d, e, f] @ extra) =
        Inr (int (16 * x1 + x2), int (16 * x3 + x4), int (16 * x5 + x6))"
    by (intro hex_to_rgb_six_digits) simp_all
next
  assume "length (dropWhile (\<lambda>c. c = CHR ''#'') h) < 5"
  then show "hex_to_rgb h = Inl ValueError"
    by (rule hex_to_rgb_short)
next
  assume "i < 6 \<and> i < length (dropWhile (\<lambda>c. c = CHR ''#'') h) \<and>
    digit_value (dropWhile (\<lambda>c. c = CHR ''#'') h ! i) = None \<and>
    \<not> is_int_space (dropWhile (\<lambda>c. c = CHR ''#'') h ! i) \<and>
    dropWhile (\<lambda>c. c = CHR ''#'') h ! i \<noteq> CHR ''+'' \<and>
    dropWhile (\<lambda>c. c = CHR ''#'') h ! i \<noteq> CHR ''-''"
  then show "hex_to_rgb h = Inl ValueError"
    by (intro hex_to_rgb_bad_character [of i]) simp_all
next
  assume "hex_to_rgb h = Inl err"
  then show "add_new_color st (JStr name, JStr h) = Inr st"
    by (simp add: add_new_color_str)
qed

theorem hex_to_rgb_reads_six_characters_witness:
  "hex_to_rgb ''#FF69b4'' = Inr (255, 105, 180) \<and>
   hex_to_rgb ''#fff'' = Inl ValueError \<and>
   hex_to_rgb ''zzzzzz'' = Inl ValueError \<and>
   add_new_color initial_state (JStr ''X'', JStr ''zzzzzz'') = Inr initial_state"
proof -
  have digits: "digit_value CHR ''F'' = Some 15 \<and> digit_value CHR ''F'' = Some 15 \<and>
      digit_value CHR ''6'' = Some 6 \<and> digit_value CHR ''9'' = Some 9 \<and>
      digit_value CHR ''b'' = Some 11 \<and> digit_value CHR ''4'' = Some 4"
    by (simp add: digit_value_def)
  have good: "hex_to_rgb ''#FF69b4'' = Inr (255, 105, 180)"
    using hex_to_rgb_reads_six_characters
            [where a = "CHR ''F''" and b = "CHR ''F''" and c = "CHR ''6''" and d = "CHR ''9''"
               and e = "CHR ''b''" and f = "CHR ''4''" and k = 1 and extra = "[]",
             THEN conjunct1, THEN mp, OF digits]
    by simp
  have short: "hex_to_rgb ''#fff'' = Inl ValueError"
    using hex_to_rgb_reads_six_characters [where h = "''#fff''", THEN conjunct2, THEN conjunct1]
    by simp
  have bad: "hex_to_rgb ''zzzzzz'' = Inl ValueError"
    using hex_to_rgb_reads_six_characters
            [where h = "''zzzzzz''" and i = 0, THEN conjunct2, THEN conjunct2, THEN conjunct1]
    by (simp add: digit_value_def is_int_space_def)
  have skipped: "add_new_color initial_state (JStr ''X'', JStr ''zzzzzz'') = Inr initial_state"
    using hex_to_rgb_reads_six_characters
            [where h = "''zzzzzz''" and err = ValueError and st = initial_state and name = "''X''",
             THEN conjunct2, THEN conjunct2, THEN conjunct2]
      bad
    by simp
  from good short bad skipped show ?thesis by simp
qed

text \<open>
  Claim C5 as stated fails: a remainder of eight digits is read as its first six and the
  record is admitted, two leading \<open>#\<close> are both removed, and a remainder of five digits is
  read with a last slice of one digit.
\<close>

theorem longer_hex_is_accepted:
  "hex_to_rgb ''#ff0000ff'' = Inr (255, 0, 0) \<and>
   hex_to_rgb ''##ff0000'' = Inr (255, 0, 0) \<and>
   hex_to_rgb ''fffff'' = Inr (255, 255, 15) \<and>
   merge [] [(JStr ''red'', JStr ''#ff0000ff'')] = Inr ([(''Red'', 255, 0, 0)], 1)"
  by (simp add: merge_defs)


section \<open>The closest colour\<close>

text \<open>
  Claim C7, as the code has it, for a list whose components are in \<open>[0, 255]\<close>. The channels
  \<open>R\<close>, \<open>G\<close> and \<open>B\<close> of the colour asked for are its bytes 2, 1 and 0, and the distance of an
  element \<open>(name, r2, g2, b2)\<close> of the list from it is the square root of
  \<open>(r2 - R)\<^sup>2 + (g2 - G)\<^sup>2 + (b2 - B)\<^sup>2\<close>. On the empty list \<open>getColorName\<close> returns \<open>Unknown\<close>.
  On any other list it returns the name of an element whose distance is the least, and the
  first such element: every element before it is strictly further. So, when no colour of the
  list is itself named \<open>Unknown\<close>, that name is returned for the empty list only.
\<close>

theorem getColorName_closest_first:
  assumes "\<forall>e \<in> set colorList. channels_in_range e"
  shows "let R = (uint color div 65536) mod 256;
             G = (uint color div 256) mod 256;
             B = uint color mod 256;
             d = (\<lambda>(name, r2, g2, b2). sqrt (real_of_int ((r2 - R)\<^sup>2 + (g2 - G)\<^sup>2 + (b2 - B)\<^sup>2)))
         in (colorList = [] \<longrightarrow> getColorName colorList color = ''Unknown'') \<and>
            (colorList \<noteq> [] \<longrightarrow>
               (\<exists>i < length colorList.
                  getColorName colorList color = fst (colorList ! i) \<and>
                  (\<forall>j < length colorList. d (colorList ! i) \<le> d (colorList ! j)) \<and>
                  (\<forall>j < i. d (colorList ! i) < d (colorList ! j)))) \<and>
            (''Unknown'' \<notin> fst ` set colorList \<longrightarrow>
               (getColorName colorList color = ''Unknown'' \<longleftrightarrow> colorList = []))"
proof -
  define d where "d = (\<lambda>(name :: string, r2, g2, b2).
      sqrt (real_of_int ((r2 - (uint color div 65536) mod 256)\<^sup>2 +
                         (g2 - (uint color div 256) mod 256)\<^sup>2 + (b2 - uint color mod 256)\<^sup>2)))"
  have d: "distance_from color e = d e" for e
    by (cases e) (simp add: d_def distance_from_formula)
  have empty: "getColorName [] color = ''Unknown''"
    by (simp add: getColorName_def)
  have chosen: "\<exists>i < length colorList.
         getColorName colorList color = fst (colorList ! i) \<and>
         (\<forall>j < length colorList. d (colorList ! i) \<le> d (colorList ! j)) \<and>
         (\<forall>j < i. d (colorList ! i) < d (colorList ! j))"
    if "colorList \<noteq> []"
  proof -
    from that obtain e where e: "e \<in> set colorList" by (cases colorList) auto
    with assms have "distance_from color e < Double_MAX_VALUE"
      by (simp add: distance_below_max)
    with e have "\<not> (\<forall>e \<in> set colorList. \<not> distance_from color e < Double_MAX_VALUE)" by blast
    with scan_closest [of color Double_MAX_VALUE "''Unknown''" colorList]
    show ?thesis
      by (auto simp: getColorName_def d)
  qed
  have member: "getColorName colorList color \<in> fst ` set colorList" if "colorList \<noteq> []"
    using chosen [OF that] by (metis image_eqI nth_mem)
  have sentinel: "getColorName colorList color = ''Unknown'' \<longleftrightarrow> colorList = []"
    if "''Unknown'' \<notin> fst ` set colorList"
  proof
    assume "getColorName colorList color = ''Unknown''"
    with member that show "colorList = []" by metis
  next
    assume "colorList = []"
    with empty show "getColorName colorList color = ''Unknown''" by simp
  qed
  from empty chosen sentinel have
    "(colorList = [] \<longrightarrow> getColorName colorList color = ''Unknown'') \<and>
     (colorList \<noteq> [] \<longrightarrow>
        (\<exists>i < length colorList.
           getColorName colorList color = fst (colorList ! i) \<and>
           (\<forall>j < length colorList. d (colorList ! i) \<le> d (colorList ! j)) \<and>
           (\<forall>j < i. d (colorList ! i) < d (colorList ! j)))) \<and>
     (''Unknown'' \<notin> fst ` set colorList \<longrightarrow>
        (getColorName colorList color = ''Unknown'' \<longleftrightarrow> colorList = []))"
    by blast
  then show ?thesis
    unfolding Let_def d_def .
qed

theorem getColorName_closest_first_witness:
  "getColorName [(''Red'', 255, 0, 0), (''Black'', 0, 0, 0)] 0xFA0A0A = ''Red'' \<and>
   getColorName [(''Black'', 0, 0, 0), (''Red'', 255, 0, 0)] 0xFA0A0A = ''Red'' \<and>
   getColorName [] 0xFA0A0A = ''Unknown''"
proof -
  let ?rb = "[(''Red'', 255, 0, 0), (''Black'', 0, 0, 0)] :: named_color list"
  let ?br = "[(''Black'', 0, 0, 0), (''Red'', 255, 0, 0)] :: named_color list"
  let ?c = "0xFA0A0A :: 32 word"
  let ?d = "\<lambda>(name :: string, r2 :: int, g2 :: int, b2 :: int).
      sqrt (real_of_int ((r2 - 250)\<^sup>2 + (g2 - 10)\<^sup>2 + (b2 - 10)\<^sup>2))"
  have "(15 :: real) < sqrt 62700"
    by (rule real_less_rsqrt) simp
  then have further: "\<not> ?d (''Black'', 0, 0, 0) \<le> ?d (''Red'', 255, 0, 0)"
    by simp
  have rb: "\<forall>e \<in> set ?rb. channels_in_range e" and br: "\<forall>e \<in> set ?br. channels_in_range e"
    by (simp_all add: channels_in_range_def)
  from getColorName_closest_first [OF rb, of ?c]
  have "\<exists>i < length ?rb. getColorName ?rb ?c = fst (?rb ! i) \<and>
      (\<forall>j < length ?rb. ?d (?rb ! i) \<le> ?d (?rb ! j)) \<and> (\<forall>j < i. ?d (?rb ! i) < ?d (?rb ! j))"
    by (simp add: Let_def)
  then obtain i where
    i: "i < length ?rb" and name: "getColorName ?rb ?c = fst (?rb ! i)" and
    least: "\<forall>j < length ?rb. ?d (?rb ! i) \<le> ?d (?rb ! j)"
    by blast
  have "i = 0"
  proof (rule ccontr)
    assume "i \<noteq> 0"
    with i have "i = 1" by simp
    moreover from least have "?d (?rb ! i) \<le> ?d (?rb ! 0)"
      by (rule allE [of _ 0]) simp
    ultimately have "?d (''Black'', 0, 0, 0) \<le> ?d (''Red'', 255, 0, 0)"
      by simp
    with further show False by simp
  qed
  with name have first: "getColorName ?rb ?c = ''Red''" by simp
  from getColorName_closest_first [OF br, of ?c]
  have "\<exists>i < length ?br. getColorName ?br ?c = fst (?br ! i) \<and>
      (\<forall>j < length ?br. ?d (?br ! i) \<le> ?d (?br ! j)) \<and> (\<forall>j < i. ?d (?br ! i) < ?d (?br ! j))"
    by (simp add: Let_def)
  then obtain k where
    k: "k < length ?br" and name': "getColorName ?br ?c = fst (?br ! k)" and
    least': "\<forall>j < length ?br. ?d (?br ! k) \<le> ?d (?br ! j)"
    by blast
  have "k = 1"
  proof (rule ccontr)
    assume "k \<noteq> 1"
    with k have "k = 0" by simp
    moreover from least' have "?d (?br ! k) \<le> ?d (?br ! 1)"
      by (rule allE [of _ 1]) simp
    ultimately have "?d (''Black'', 0, 0, 0) \<le> ?d (''Red'', 255, 0, 0)"
      by simp
    with further show False by simp
  qed
  with name' have second: "getColorName ?br ?c = ''Red''" by simp
  have "getColorName [] ?c = ''Unknown''"
    using getColorName_closest_first [of "[]" ?c] by (simp add: Let_def)
  with first second show ?thesis by simp
qed

text \<open>
  Claim C7 as stated fails: \<open>Unknown\<close> is also returned for a list that is not empty, when it
  is the name of the closest colour; and the merge gives that name to a fetched colour
  named \<open>unknown\<close>.
\<close>

theorem colour_named_unknown_is_returned:
  "merge [] [(JStr ''unknown'', JStr ''#000000'')] = Inr ([(''Unknown'', 0, 0, 0)], 1) \<and>
   getColorName [(''Unknown'', 0, 0, 0)] 0 = ''Unknown''"
  by (simp add: merge_defs getColorName_def closer_def calculateDistance_def red_def green_def
        blue_def Double_MAX_VALUE_def)

end
